theory Spec2Isabelle
  imports Main
begin

section \<open>The robotic task state machine (fsm.hpp, fsm.cpp)\<close>

subsection \<open>Enumerations\<close>

text \<open>
  \<^verbatim>\<open>enum class SystemState\<close> and \<^verbatim>\<open>enum class SystemEvent\<close> of fsm.hpp, in declaration order.
  The specification calls \<open>MOVEIT_STARTING\<close> "SubsystemStarting" and the three \<open>MOVEIT\<close> events
  "StartSubsystem", "SubsystemReady" and "SubsystemFailed".
\<close>

datatype SystemState =
    IDLE
  | MOVEIT_STARTING
  | PLANNING
  | EXECUTING
  | OBSTACLE_DETECTED
  | ERROR

datatype SystemEvent =
    START_MOVEIT
  | MOVEIT_READY
  | MOVEIT_FAILED
  | START_PLANNING
  | PLANNING_SUCCESS
  | PLANNING_FAILED
  | EXECUTION_COMPLETE
  | OBSTACLE_APPEARED
  | OBSTACLE_CLEARED
  | STOP_REQUEST
  | ERROR_OCCURRED
  | RESET_REQUEST

subsection \<open>Exceptions, callbacks and observable effects\<close>

text \<open>
  Both handlers of fsm.cpp are typed \<^verbatim>\<open>catch (const std::exception& e)\<close>. A callable stored in a
  \<^verbatim>\<open>std::function\<close> may throw an object of any type, so a thrown object is either derived from
  \<^verbatim>\<open>std::exception\<close> (carrying its \<^verbatim>\<open>what()\<close> text) or it is not, and only the first kind
  matches the handlers.
\<close>

datatype exn = StdException string | OtherException

text \<open>
  The outcome of a call: it returns a value or an exception leaves it. The same type describes
  what a callback does when invoked and what an operation of the engine does.
\<close>

datatype 'a result = Returned 'a | Raised exn

text \<open>
  \<^verbatim>\<open>EventCallback = std::function<bool(SystemEvent)>\<close>. A \<^verbatim>\<open>std::function\<close> may be empty (\<open>None\<close>);
  an empty one can be stored by \<^verbatim>\<open>setEventCallback\<close>, and calling it throws
  \<^verbatim>\<open>std::bad_function_call\<close>, which is derived from \<^verbatim>\<open>std::exception\<close>.
  \<^verbatim>\<open>StateChangeCallback = std::function<void(SystemState, SystemState)>\<close> likewise; fsm.cpp tests
  it for emptiness before the call. Callbacks are taken not to call back into the engine
  (section 5 of the specification makes that the contract).
\<close>

type_synonym EventCallback = "(SystemEvent \<Rightarrow> bool result) option"

type_synonym StateChangeCallback = "(SystemState \<Rightarrow> SystemState \<Rightarrow> unit result) option"

definition call_event_callback :: "EventCallback \<Rightarrow> SystemEvent \<Rightarrow> bool result" where
  "call_event_callback cb event =
     (case cb of
        None \<Rightarrow> Raised (StdException ''bad_function_call'')
      | Some g \<Rightarrow> g event)"

text \<open>
  The messages of fsm.cpp (several of them in Chinese) are represented by their kind and their
  arguments; the time stamp that \<^verbatim>\<open>logMessage\<close> puts in front is left out. \<^verbatim>\<open>logMessage\<close> is
  public, so a caller may log a text of its own (\<open>LogText\<close>).
\<close>

datatype log_message =
    LogInitialize
  | LogStart
  | LogReset
  | LogShutdown
  | LogNoTable SystemState
  | LogUnsupported SystemState SystemEvent
  | LogEventCallbackFailed SystemEvent
  | LogEventCallbackAbnormal string
  | LogStateCallbackRegistered
  | LogEventCallbackRegistered SystemEvent
  | LogWaitNeedsThreadSafety
  | LogInvalidTransition SystemState SystemState
  | LogTransition SystemState SystemState
  | LogStateCallbackException string
  | LogText string

text \<open>
  \<^verbatim>\<open>LogCallback = std::function<void(const std::string&)>\<close>: the log sink, a callable of the
  caller's like the other two, which returns or throws when it is handed a line, and which may be
  empty. The constructor installs the console writer \<^verbatim>\<open>defaultLogCallback\<close>, which returns.
\<close>

type_synonym LogCallback = "(log_message \<Rightarrow> unit result) option"

definition defaultLogCallback :: "log_message \<Rightarrow> unit result" where
  "defaultLogCallback message = Returned ()"

text \<open>
  What the engine does to its surroundings, in the order it does it: a line handed to the log
  sink, an invocation of the state-change callback with its two arguments, an invocation of the
  gating callback of an event, and \<^verbatim>\<open>cv_.notify_all()\<close>.
\<close>

datatype effect =
    Log log_message
  | StateChangeCall SystemState SystemState
  | EventCall SystemEvent
  | NotifyAll

fun is_state_change_call :: "effect \<Rightarrow> bool" where
  "is_state_change_call (StateChangeCall old_state new_state) = True"
| "is_state_change_call other = False"

fun is_event_call :: "effect \<Rightarrow> bool" where
  "is_event_call (EventCall event) = True"
| "is_event_call other = False"

fun is_notify :: "effect \<Rightarrow> bool" where
  "is_notify NotifyAll = True"
| "is_notify other = False"

subsection \<open>The engine\<close>

text \<open>
  The data members of \<^verbatim>\<open>class Fsm\<close>, without the trailing underscore of the C++ names.
  \<^verbatim>\<open>has_original_trajectory_\<close> and \<^verbatim>\<open>original_trajectory_data_\<close> are never read or written by
  fsm.cpp and are left out. \<open>trace\<close> is not a member: it collects the effects, oldest first.
  \<^verbatim>\<open>mutex_\<close> is taken by \<^verbatim>\<open>getOptionalLock\<close> at the start of a public operation and released when
  the operation is left, on every path; operations are run here one after the other, so the lock
  is free whenever one starts, and it has no field.
\<close>

record Fsm =
  thread_safe :: bool
  running :: bool
  current_state :: SystemState
  previous_state :: SystemState
  transition_table :: "SystemState \<rightharpoonup> (SystemEvent \<rightharpoonup> SystemState)"
  state_change_callback :: StateChangeCallback
  event_callbacks :: "SystemEvent \<rightharpoonup> EventCallback"
  log_callback :: LogCallback
  execution_progress :: nat
  trace :: "effect list"

text \<open>
  An operation is a function from the engine to an outcome and the engine it leaves behind.
  When a step is left by an exception, the steps after it do not run.
\<close>

definition and_then ::
  "'a result \<times> Fsm \<Rightarrow> ('a \<Rightarrow> Fsm \<Rightarrow> 'b result \<times> Fsm) \<Rightarrow> 'b result \<times> Fsm" where
  "and_then step rest =
     (case step of
        (Returned a, f) \<Rightarrow> rest a f
      | (Raised x, f) \<Rightarrow> (Raised x, f))"

text \<open>
  \<^verbatim>\<open>transition_table_[from][event] = to\<close>: \<^verbatim>\<open>operator[]\<close> of the outer map creates an empty inner
  map when the state has none yet.
\<close>

definition table_set ::
  "(SystemState \<rightharpoonup> (SystemEvent \<rightharpoonup> SystemState)) \<Rightarrow> SystemState \<Rightarrow> SystemEvent \<Rightarrow> SystemState
    \<Rightarrow> (SystemState \<rightharpoonup> (SystemEvent \<rightharpoonup> SystemState))" where
  "table_set tbl from event to =
     tbl(from \<mapsto> (case tbl from of None \<Rightarrow> Map.empty | Some row \<Rightarrow> row)(event \<mapsto> to))"

definition setupTransitionTable ::
  "(SystemState \<rightharpoonup> (SystemEvent \<rightharpoonup> SystemState)) \<Rightarrow> (SystemState \<rightharpoonup> (SystemEvent \<rightharpoonup> SystemState))" where
  "setupTransitionTable tbl =
     (let
        t1 = table_set tbl IDLE START_MOVEIT MOVEIT_STARTING;
        t2 = table_set t1 IDLE RESET_REQUEST IDLE;
        t3 = table_set t2 IDLE ERROR_OCCURRED ERROR;
        t4 = table_set t3 MOVEIT_STARTING MOVEIT_READY PLANNING;
        t5 = table_set t4 MOVEIT_STARTING MOVEIT_FAILED ERROR;
        t6 = table_set t5 MOVEIT_STARTING ERROR_OCCURRED ERROR;
        t7 = table_set t6 MOVEIT_STARTING STOP_REQUEST IDLE;
        t8 = table_set t7 PLANNING PLANNING_SUCCESS EXECUTING;
        t9 = table_set t8 PLANNING PLANNING_FAILED ERROR;
        t10 = table_set t9 PLANNING ERROR_OCCURRED ERROR;
        t11 = table_set t10 PLANNING OBSTACLE_APPEARED OBSTACLE_DETECTED;
        t12 = table_set t11 PLANNING STOP_REQUEST IDLE;
        t13 = table_set t12 EXECUTING EXECUTION_COMPLETE IDLE;
        t14 = table_set t13 EXECUTING OBSTACLE_APPEARED OBSTACLE_DETECTED;
        t15 = table_set t14 EXECUTING STOP_REQUEST IDLE;
        t16 = table_set t15 EXECUTING ERROR_OCCURRED ERROR;
        t17 = table_set t16 OBSTACLE_DETECTED START_PLANNING PLANNING;
        t18 = table_set t17 OBSTACLE_DETECTED STOP_REQUEST IDLE;
        t19 = table_set t18 OBSTACLE_DETECTED ERROR_OCCURRED ERROR;
        t20 = table_set t19 ERROR RESET_REQUEST IDLE;
        t21 = table_set t20 ERROR STOP_REQUEST IDLE
      in t21)"

text \<open>
  The constructor \<^verbatim>\<open>Fsm::Fsm()\<close>: not thread safe, not running, both states \<open>IDLE\<close>, the console
  log sink, no other callback, and the table filled in.
\<close>

definition Fsm_init :: Fsm where
  "Fsm_init =
     \<lparr> thread_safe = False,
       running = False,
       current_state = IDLE,
       previous_state = IDLE,
       transition_table = setupTransitionTable Map.empty,
       state_change_callback = None,
       event_callbacks = Map.empty,
       log_callback = Some defaultLogCallback,
       execution_progress = 0,
       trace = [] \<rparr>"

text \<open>
  \<^verbatim>\<open>logMessage\<close>: if a sink is installed, the line is handed to it, with no handler around the
  call: what the sink throws leaves \<^verbatim>\<open>logMessage\<close>.
\<close>

definition logMessage :: "Fsm \<Rightarrow> log_message \<Rightarrow> unit result \<times> Fsm" where
  "logMessage f message =
     (case log_callback f of
        None \<Rightarrow> (Returned (), f)
      | Some sink \<Rightarrow> (sink message, f\<lparr>trace := trace f @ [Log message]\<rparr>))"

definition notify_all :: "Fsm \<Rightarrow> Fsm" where
  "notify_all f = f\<lparr>trace := trace f @ [NotifyAll]\<rparr>"

definition initialize :: "Fsm \<Rightarrow> bool result \<times> Fsm" where
  "initialize f =
     (let f1 = f\<lparr>current_state := IDLE\<rparr>;
          f2 = f1\<lparr>previous_state := IDLE\<rparr>;
          f3 = f2\<lparr>running := True\<rparr>;
          f4 = f3\<lparr>execution_progress := 0\<rparr>
      in and_then (logMessage f4 LogInitialize) (\<lambda>u f5. (Returned True, f5)))"

definition start :: "Fsm \<Rightarrow> unit result \<times> Fsm" where
  "start f =
     and_then (logMessage f LogStart) (\<lambda>u f1.
       (let f2 = f1\<lparr>running := True\<rparr>
        in (Returned (), f2\<lparr>current_state := IDLE\<rparr>)))"

text \<open>
  \<^verbatim>\<open>onStateChanged\<close>: the callback, if there is one, inside the handler for \<^verbatim>\<open>std::exception\<close>,
  which logs; then \<^verbatim>\<open>cv_.notify_all()\<close>. An exception of another type, and one the sink throws
  inside the handler, leave the function before the notification.
\<close>

definition onStateChanged :: "Fsm \<Rightarrow> SystemState \<Rightarrow> SystemState \<Rightarrow> unit result \<times> Fsm" where
  "onStateChanged f old_state new_state =
     (case state_change_callback f of
        None \<Rightarrow> (Returned (), notify_all f)
      | Some cb \<Rightarrow>
          (let f1 = f\<lparr>trace := trace f @ [StateChangeCall old_state new_state]\<rparr>
           in case cb old_state new_state of
                Returned u \<Rightarrow> (Returned (), notify_all f1)
              | Raised (StdException what) \<Rightarrow>
                  and_then (logMessage f1 (LogStateCallbackException what)) (\<lambda>u f2.
                    (Returned (), notify_all f2))
              | Raised OtherException \<Rightarrow> (Raised OtherException, f1)))"

definition reset :: "Fsm \<Rightarrow> unit result \<times> Fsm" where
  "reset f =
     and_then (logMessage f LogReset) (\<lambda>u f1.
       (let f2 = f1\<lparr>previous_state := current_state f1\<rparr>;
            f3 = f2\<lparr>current_state := IDLE\<rparr>
        in onStateChanged f3 (previous_state f3) (current_state f3)))"

definition shutdown :: "Fsm \<Rightarrow> unit result \<times> Fsm" where
  "shutdown f =
     and_then (logMessage f LogShutdown) (\<lambda>u f1.
       (let f2 = f1\<lparr>running := False\<rparr>
        in (Returned (), notify_all f2)))"

definition isValidTransition :: "Fsm \<Rightarrow> SystemState \<Rightarrow> SystemState \<Rightarrow> SystemEvent \<Rightarrow> bool" where
  "isValidTransition f from to event =
     (case transition_table f from of
        None \<Rightarrow> False
      | Some row \<Rightarrow>
          (case row event of
             None \<Rightarrow> False
           | Some target \<Rightarrow> target = to))"

definition executeTransition ::
  "Fsm \<Rightarrow> SystemState \<Rightarrow> SystemState \<Rightarrow> SystemEvent \<Rightarrow> bool result \<times> Fsm" where
  "executeTransition f from to event =
     (if \<not> isValidTransition f from to event
      then and_then (logMessage f (LogInvalidTransition from to)) (\<lambda>u f1. (Returned False, f1))
      else
        (let f1 = f\<lparr>previous_state := current_state f\<rparr>;
             f2 = f1\<lparr>current_state := to\<rparr>
         in and_then (logMessage f2 (LogTransition from to)) (\<lambda>u f3.
              and_then (onStateChanged f3 (previous_state f3) (current_state f3)) (\<lambda>u f4.
                (Returned True, f4)))))"

text \<open>
  The \<^verbatim>\<open>try\<close> block of \<^verbatim>\<open>triggerEventInternal\<close>: the gating callback is invoked; when it returns
  false the block logs and returns false; when it returns true the block is left at its end
  (\<open>Returned True\<close>); what the callback or the sink throws leaves the block.
\<close>

definition try_event_callback :: "Fsm \<Rightarrow> EventCallback \<Rightarrow> SystemEvent \<Rightarrow> bool result \<times> Fsm" where
  "try_event_callback f cb event =
     (let f1 = f\<lparr>trace := trace f @ [EventCall event]\<rparr>
      in case call_event_callback cb event of
           Returned True \<Rightarrow> (Returned True, f1)
         | Returned False \<Rightarrow>
             and_then (logMessage f1 (LogEventCallbackFailed event)) (\<lambda>u f2. (Returned False, f2))
         | Raised x \<Rightarrow> (Raised x, f1))"

text \<open>
  \<^verbatim>\<open>triggerEventInternal\<close>. \<open>data\<close> is cast to void. The handler of the \<^verbatim>\<open>try\<close> block takes a
  \<^verbatim>\<open>std::exception\<close>, logs and returns false; an exception of another type leaves the function,
  and so does what the sink throws outside the block or inside the handler.
\<close>

definition triggerEventInternal :: "Fsm \<Rightarrow> SystemEvent \<Rightarrow> string \<Rightarrow> bool result \<times> Fsm" where
  "triggerEventInternal f event data =
     (case transition_table f (current_state f) of
        None \<Rightarrow>
          and_then (logMessage f (LogNoTable (current_state f))) (\<lambda>u f1. (Returned False, f1))
      | Some row \<Rightarrow>
          (case row event of
             None \<Rightarrow>
               and_then (logMessage f (LogUnsupported (current_state f) event)) (\<lambda>u f1.
                 (Returned False, f1))
           | Some target_state \<Rightarrow>
               (case event_callbacks f event of
                  None \<Rightarrow> executeTransition f (current_state f) target_state event
                | Some cb \<Rightarrow>
                    (case try_event_callback f cb event of
                       (Returned True, f1) \<Rightarrow>
                         executeTransition f1 (current_state f1) target_state event
                     | (Returned False, f1) \<Rightarrow> (Returned False, f1)
                     | (Raised (StdException what), f1) \<Rightarrow>
                         and_then (logMessage f1 (LogEventCallbackAbnormal what)) (\<lambda>u f2.
                           (Returned False, f2))
                     | (Raised OtherException, f1) \<Rightarrow> (Raised OtherException, f1)))))"

definition triggerEvent_data :: "Fsm \<Rightarrow> SystemEvent \<Rightarrow> string \<Rightarrow> bool result \<times> Fsm" where
  "triggerEvent_data f event data = triggerEventInternal f event data"

definition triggerEvent :: "Fsm \<Rightarrow> SystemEvent \<Rightarrow> bool result \<times> Fsm" where
  "triggerEvent f event = triggerEvent_data f event ''''"

text \<open>\<^verbatim>\<open>stop\<close> returns void: the result of \<^verbatim>\<open>triggerEvent\<close> is dropped.\<close>

definition stop :: "Fsm \<Rightarrow> unit result \<times> Fsm" where
  "stop f = and_then (triggerEvent f STOP_REQUEST) (\<lambda>b f1. (Returned (), f1))"

definition canTransitionInternal :: "Fsm \<Rightarrow> SystemEvent \<Rightarrow> bool" where
  "canTransitionInternal f event =
     (case transition_table f (current_state f) of
        None \<Rightarrow> False
      | Some row \<Rightarrow> row event \<noteq> None)"

text \<open>
  The const queries return their value together with the engine they leave behind, so that
  "does not change the engine" is a statement about them.
\<close>

definition canTransition :: "Fsm \<Rightarrow> SystemEvent \<Rightarrow> bool \<times> Fsm" where
  "canTransition f event = (canTransitionInternal f event, f)"

definition getCurrentState :: "Fsm \<Rightarrow> SystemState \<times> Fsm" where
  "getCurrentState f = (current_state f, f)"

text \<open>
  \<^verbatim>\<open>stateToString\<close> and \<^verbatim>\<open>eventToString\<close>. Their \<^verbatim>\<open>default\<close> branches answer values outside the
  enumerations, which the datatypes do not have.
\<close>

fun stateToString :: "SystemState \<Rightarrow> string" where
  "stateToString IDLE = ''IDLE''"
| "stateToString MOVEIT_STARTING = ''MOVEIT_STARTING''"
| "stateToString PLANNING = ''PLANNING''"
| "stateToString EXECUTING = ''EXECUTING''"
| "stateToString OBSTACLE_DETECTED = ''OBSTACLE_DETECTED''"
| "stateToString ERROR = ''ERROR''"

fun eventToString :: "SystemEvent \<Rightarrow> string" where
  "eventToString START_MOVEIT = ''START_MOVEIT''"
| "eventToString MOVEIT_READY = ''MOVEIT_READY''"
| "eventToString MOVEIT_FAILED = ''MOVEIT_FAILED''"
| "eventToString START_PLANNING = ''START_PLANNING''"
| "eventToString PLANNING_SUCCESS = ''PLANNING_SUCCESS''"
| "eventToString PLANNING_FAILED = ''PLANNING_FAILED''"
| "eventToString EXECUTION_COMPLETE = ''EXECUTION_COMPLETE''"
| "eventToString OBSTACLE_APPEARED = ''OBSTACLE_APPEARED''"
| "eventToString OBSTACLE_CLEARED = ''OBSTACLE_CLEARED''"
| "eventToString STOP_REQUEST = ''STOP_REQUEST''"
| "eventToString ERROR_OCCURRED = ''ERROR_OCCURRED''"
| "eventToString RESET_REQUEST = ''RESET_REQUEST''"

definition getCurrentStateNameInternal :: "Fsm \<Rightarrow> string" where
  "getCurrentStateNameInternal f = stateToString (current_state f)"

definition getCurrentStateName :: "Fsm \<Rightarrow> string \<times> Fsm" where
  "getCurrentStateName f = (getCurrentStateNameInternal f, f)"

definition isInState :: "Fsm \<Rightarrow> SystemState \<Rightarrow> bool \<times> Fsm" where
  "isInState f state = (case getCurrentState f of (s, f1) \<Rightarrow> (s = state, f1))"

text \<open>The two registrations assign first and log afterwards; \<^verbatim>\<open>setLogCallback\<close> does not log.\<close>

definition setStateChangeCallback :: "Fsm \<Rightarrow> StateChangeCallback \<Rightarrow> unit result \<times> Fsm" where
  "setStateChangeCallback f callback =
     logMessage (f\<lparr>state_change_callback := callback\<rparr>) LogStateCallbackRegistered"

definition setEventCallback :: "Fsm \<Rightarrow> SystemEvent \<Rightarrow> EventCallback \<Rightarrow> unit result \<times> Fsm" where
  "setEventCallback f event callback =
     logMessage (f\<lparr>event_callbacks := (event_callbacks f)(event \<mapsto> callback)\<rparr>)
       (LogEventCallbackRegistered event)"

definition setLogCallback :: "Fsm \<Rightarrow> LogCallback \<Rightarrow> Fsm" where
  "setLogCallback f callback = f\<lparr>log_callback := callback\<rparr>"

definition enableThreadSafety :: "Fsm \<Rightarrow> bool \<Rightarrow> Fsm" where
  "enableThreadSafety f enable = f\<lparr>thread_safe := enable\<rparr>"

subsection \<open>Waiting for a state\<close>

text \<open>
  \<^verbatim>\<open>std::condition_variable\<close> is not code of the repository; the two waits are written after
  their definition in the C++ standard. The waiting thread gives up the lock while it is blocked
  and holds it again when it wakes, so what matters to it is the sequence of its wake-ups: for
  each one, why the wait ended (\<^verbatim>\<open>std::cv_status\<close>) and what the predicate then reads, here
  \<^verbatim>\<open>current_state_\<close> and \<^verbatim>\<open>running_\<close> as the other threads left them. A wake-up that finds
  nothing changed is a spurious one. A thread that is blocked when the wake-ups are used up
  stays blocked: the result is \<open>None\<close>.

  \<^verbatim>\<open>wait(lock, pred)\<close> is \<^verbatim>\<open>while (!pred()) wait(lock);\<close>

  \<^verbatim>\<open>wait_for(lock, rel_time, pred)\<close> is
  \<^verbatim>\<open>while (!pred()) if (wait_until(lock, abs_time) == cv_status::timeout) return pred(); return true;\<close>
\<close>

datatype cv_status = cv_no_timeout | cv_timeout

fun cv_wait :: "('v \<Rightarrow> bool) \<Rightarrow> 'v \<Rightarrow> (cv_status \<times> 'v) list \<Rightarrow> 'v option" where
  "cv_wait pred v [] = (if pred v then Some v else None)"
| "cv_wait pred v (w # ws) = (if pred v then Some v else cv_wait pred (snd w) ws)"

fun cv_wait_for :: "('v \<Rightarrow> bool) \<Rightarrow> 'v \<Rightarrow> (cv_status \<times> 'v) list \<Rightarrow> (bool \<times> 'v) option" where
  "cv_wait_for pred v [] = (if pred v then Some (True, v) else None)"
| "cv_wait_for pred v (w # ws) =
     (if pred v then Some (True, v)
      else if fst w = cv_timeout then Some (pred (snd w), snd w)
      else cv_wait_for pred (snd w) ws)"

text \<open>
  \<^verbatim>\<open>waitForState\<close>. \<open>timeout\<close> is \<^verbatim>\<open>timeout.count()\<close>, a signed number of milliseconds. The engine
  in the result is the one this call leaves behind by its own doing: it only ever adds a log line.
\<close>

definition waitForState ::
  "Fsm \<Rightarrow> SystemState \<Rightarrow> int \<Rightarrow> (cv_status \<times> SystemState \<times> bool) list
    \<Rightarrow> (bool result \<times> Fsm) option" where
  "waitForState f target_state timeout wakeups =
     (if \<not> thread_safe f
      then Some (and_then (logMessage f LogWaitNeedsThreadSafety) (\<lambda>u f1. (Returned False, f1)))
      else if current_state f = target_state
      then Some (Returned True, f)
      else if timeout > 0
      then
        (case cv_wait_for (\<lambda>(s, r). s = target_state \<or> \<not> r) (current_state f, running f) wakeups of
           None \<Rightarrow> None
         | Some (b, v) \<Rightarrow> Some (Returned b, f))
      else
        (case cv_wait (\<lambda>(s, r). s = target_state \<or> \<not> r) (current_state f, running f) wakeups of
           None \<Rightarrow> None
         | Some (s, r) \<Rightarrow> Some (Returned (s = target_state), f)))"

subsection \<open>Sequences of public operations\<close>

text \<open>
  The public member functions of \<^verbatim>\<open>class Fsm\<close>, with their arguments. The destructor, which calls
  \<^verbatim>\<open>shutdown\<close>, ends the engine and is not among them.
\<close>

datatype public_op =
    Initialize
  | Start
  | Stop
  | Reset
  | Shutdown
  | TriggerEvent SystemEvent
  | TriggerEventData SystemEvent string
  | GetCurrentState
  | GetCurrentStateName
  | IsInState SystemState
  | CanTransition SystemEvent
  | WaitForState SystemState int "(cv_status \<times> SystemState \<times> bool) list"
  | SetStateChangeCallback StateChangeCallback
  | SetEventCallback SystemEvent EventCallback
  | SetLogCallback LogCallback
  | EnableThreadSafety bool
  | LogMessage log_message

text \<open>
  The engine after an operation, whether the operation returned or an exception left it. A wait
  that stays blocked leaves the engine as it is.
\<close>

fun run_op :: "public_op \<Rightarrow> Fsm \<Rightarrow> Fsm" where
  "run_op Initialize f = snd (initialize f)"
| "run_op Start f = snd (start f)"
| "run_op Stop f = snd (stop f)"
| "run_op Reset f = snd (reset f)"
| "run_op Shutdown f = snd (shutdown f)"
| "run_op (TriggerEvent event) f = snd (triggerEvent f event)"
| "run_op (TriggerEventData event data) f = snd (triggerEvent_data f event data)"
| "run_op GetCurrentState f = snd (getCurrentState f)"
| "run_op GetCurrentStateName f = snd (getCurrentStateName f)"
| "run_op (IsInState state) f = snd (isInState f state)"
| "run_op (CanTransition event) f = snd (canTransition f event)"
| "run_op (WaitForState target_state timeout wakeups) f =
     (case waitForState f target_state timeout wakeups of None \<Rightarrow> f | Some (b, f1) \<Rightarrow> f1)"
| "run_op (SetStateChangeCallback callback) f = snd (setStateChangeCallback f callback)"
| "run_op (SetEventCallback event callback) f = snd (setEventCallback f event callback)"
| "run_op (SetLogCallback callback) f = setLogCallback f callback"
| "run_op (EnableThreadSafety enable) f = enableThreadSafety f enable"
| "run_op (LogMessage message) f = snd (logMessage f message)"

fun run_ops :: "public_op list \<Rightarrow> Fsm \<Rightarrow> Fsm" where
  "run_ops [] f = f"
| "run_ops (x # xs) f = run_ops xs (run_op x f)"

text \<open>An engine is reachable when some sequence of public operations on a new engine gives it.\<close>

definition reachable :: "Fsm \<Rightarrow> bool" where
  "reachable f = (\<exists>ops. f = run_ops ops Fsm_init)"

text \<open>The effects between an engine and a later one.\<close>

definition new_effects :: "Fsm \<Rightarrow> Fsm \<Rightarrow> effect list" where
  "new_effects f f1 = drop (length (trace f)) (trace f1)"

subsection \<open>The transition table of the specification\<close>

text \<open>
  The table of section 4 of the specification, row by row, in the names of fsm.hpp. It is written
  from the specification and is compared below with the table that \<open>setupTransitionTable\<close> builds.
\<close>

definition spec_table :: "((SystemState \<times> SystemEvent) \<times> SystemState) list" where
  "spec_table =
     [((IDLE, START_MOVEIT), MOVEIT_STARTING),
      ((IDLE, RESET_REQUEST), IDLE),
      ((IDLE, ERROR_OCCURRED), ERROR),
      ((MOVEIT_STARTING, MOVEIT_READY), PLANNING),
      ((MOVEIT_STARTING, MOVEIT_FAILED), ERROR),
      ((MOVEIT_STARTING, ERROR_OCCURRED), ERROR),
      ((MOVEIT_STARTING, STOP_REQUEST), IDLE),
      ((PLANNING, PLANNING_SUCCESS), EXECUTING),
      ((PLANNING, PLANNING_FAILED), ERROR),
      ((PLANNING, ERROR_OCCURRED), ERROR),
      ((PLANNING, OBSTACLE_APPEARED), OBSTACLE_DETECTED),
      ((PLANNING, STOP_REQUEST), IDLE),
      ((EXECUTING, EXECUTION_COMPLETE), IDLE),
      ((EXECUTING, OBSTACLE_APPEARED), OBSTACLE_DETECTED),
      ((EXECUTING, STOP_REQUEST), IDLE),
      ((EXECUTING, ERROR_OCCURRED), ERROR),
      ((OBSTACLE_DETECTED, START_PLANNING), PLANNING),
      ((OBSTACLE_DETECTED, STOP_REQUEST), IDLE),
      ((OBSTACLE_DETECTED, ERROR_OCCURRED), ERROR),
      ((ERROR, RESET_REQUEST), IDLE),
      ((ERROR, STOP_REQUEST), IDLE)]"

text \<open>
  The table of an engine is the one the constructor built. No operation writes
  \<^verbatim>\<open>transition_table_\<close>, so this holds of every reachable engine (\<open>reachable_table_intact\<close>).
\<close>

definition table_intact :: "Fsm \<Rightarrow> bool" where
  "table_intact f = (transition_table f = setupTransitionTable Map.empty)"

text \<open>A look-up in the nested table, as the two \<^verbatim>\<open>find\<close> calls of fsm.cpp do it.\<close>

definition table_find ::
  "(SystemState \<rightharpoonup> (SystemEvent \<rightharpoonup> SystemState)) \<Rightarrow> SystemState \<Rightarrow> SystemEvent \<Rightarrow> SystemState option" where
  "table_find tbl state event = (case tbl state of None \<Rightarrow> None | Some row \<Rightarrow> row event)"

subsection \<open>What the callbacks of an engine do\<close>

text \<open>
  What the sink of an engine does with a line, and which entry of the trace the hand-over leaves:
  the two components of \<open>logMessage\<close>.
\<close>

definition log_result :: "Fsm \<Rightarrow> log_message \<Rightarrow> unit result" where
  "log_result f message = (case log_callback f of None \<Rightarrow> Returned () | Some sink \<Rightarrow> sink message)"

definition log_line :: "Fsm \<Rightarrow> log_message \<Rightarrow> effect list" where
  "log_line f message = (case log_callback f of None \<Rightarrow> [] | Some sink \<Rightarrow> [Log message])"

text \<open>
  The state-change callback of an engine is contained for a pair of states when none is
  registered, or the registered one returns, or it throws a \<^verbatim>\<open>std::exception\<close> and the sink
  takes the line the handler logs.
\<close>

definition observer_contained :: "Fsm \<Rightarrow> SystemState \<Rightarrow> SystemState \<Rightarrow> bool" where
  "observer_contained f old new =
     (case state_change_callback f of
        None \<Rightarrow> True
      | Some cb \<Rightarrow>
          (case cb old new of
             Returned u \<Rightarrow> True
           | Raised (StdException what) \<Rightarrow> log_result f (LogStateCallbackException what) = Returned ()
           | Raised OtherException \<Rightarrow> False))"

text \<open>
  The two components of \<open>onStateChanged\<close>, and the committed transition of \<open>executeTransition\<close>
  after the effects \<open>before\<close>; they are shown equal to the definitions above.
\<close>

definition observer_result :: "Fsm \<Rightarrow> SystemState \<Rightarrow> SystemState \<Rightarrow> unit result" where
  "observer_result f old new =
     (case state_change_callback f of
        None \<Rightarrow> Returned ()
      | Some cb \<Rightarrow>
          (case cb old new of
             Returned u \<Rightarrow> Returned ()
           | Raised (StdException what) \<Rightarrow> log_result f (LogStateCallbackException what)
           | Raised OtherException \<Rightarrow> Raised OtherException))"

definition observer_effects :: "Fsm \<Rightarrow> SystemState \<Rightarrow> SystemState \<Rightarrow> effect list" where
  "observer_effects f old new =
     (case state_change_callback f of
        None \<Rightarrow> [NotifyAll]
      | Some cb \<Rightarrow>
          StateChangeCall old new #
          (case cb old new of
             Returned u \<Rightarrow> [NotifyAll]
           | Raised (StdException what) \<Rightarrow>
               log_line f (LogStateCallbackException what) @
               (case log_result f (LogStateCallbackException what) of
                  Returned u \<Rightarrow> [NotifyAll]
                | Raised x \<Rightarrow> [])
           | Raised OtherException \<Rightarrow> []))"

definition commit :: "Fsm \<Rightarrow> SystemState \<Rightarrow> effect list \<Rightarrow> bool result \<times> Fsm" where
  "commit f target before =
     ((case log_result f (LogTransition (current_state f) target) of
         Raised x \<Rightarrow> Raised x
       | Returned u \<Rightarrow>
           (case observer_result f (current_state f) target of
              Returned u \<Rightarrow> Returned True
            | Raised x \<Rightarrow> Raised x)),
      f\<lparr>previous_state := current_state f,
        current_state := target,
        trace := trace f @ before @ log_line f (LogTransition (current_state f) target) @
                 (case log_result f (LogTransition (current_state f) target) of
                    Raised x \<Rightarrow> []
                  | Returned u \<Rightarrow> observer_effects f (current_state f) target)\<rparr>)"

text \<open>
  The two components of \<open>triggerEventInternal\<close> after a gating callback whose outcome \<open>r\<close> is not
  "returned true": the \<^verbatim>\<open>try\<close> block's own log line and the handler's.
\<close>

definition veto_result :: "Fsm \<Rightarrow> SystemEvent \<Rightarrow> bool result \<Rightarrow> bool result" where
  "veto_result f event r =
     (case r of
        Returned b \<Rightarrow>
          (case log_result f (LogEventCallbackFailed event) of
             Returned u \<Rightarrow> Returned False
           | Raised (StdException what) \<Rightarrow>
               (case log_result f (LogEventCallbackAbnormal what) of
                  Returned u \<Rightarrow> Returned False
                | Raised x \<Rightarrow> Raised x)
           | Raised OtherException \<Rightarrow> Raised OtherException)
      | Raised (StdException what) \<Rightarrow>
          (case log_result f (LogEventCallbackAbnormal what) of
             Returned u \<Rightarrow> Returned False
           | Raised x \<Rightarrow> Raised x)
      | Raised OtherException \<Rightarrow> Raised OtherException)"

definition veto_effects :: "Fsm \<Rightarrow> SystemEvent \<Rightarrow> bool result \<Rightarrow> effect list" where
  "veto_effects f event r =
     (case r of
        Returned b \<Rightarrow>
          log_line f (LogEventCallbackFailed event) @
          (case log_result f (LogEventCallbackFailed event) of
             Returned u \<Rightarrow> []
           | Raised (StdException what) \<Rightarrow> log_line f (LogEventCallbackAbnormal what)
           | Raised OtherException \<Rightarrow> [])
      | Raised (StdException what) \<Rightarrow> log_line f (LogEventCallbackAbnormal what)
      | Raised OtherException \<Rightarrow> [])"

subsection \<open>Example callbacks and engines\<close>

text \<open>Callables a caller may register, used as concrete inputs below.\<close>

definition guard_throwing_std :: "SystemEvent \<Rightarrow> bool result" where
  "guard_throwing_std event = Raised (StdException ''guard failed'')"

definition guard_throwing_other :: "SystemEvent \<Rightarrow> bool result" where
  "guard_throwing_other event = Raised OtherException"

definition observer_returning :: "SystemState \<Rightarrow> SystemState \<Rightarrow> unit result" where
  "observer_returning old_state new_state = Returned ()"

definition observer_throwing_std :: "SystemState \<Rightarrow> SystemState \<Rightarrow> unit result" where
  "observer_throwing_std old_state new_state = Raised (StdException ''observer failed'')"

definition observer_throwing_other :: "SystemState \<Rightarrow> SystemState \<Rightarrow> unit result" where
  "observer_throwing_other old_state new_state = Raised OtherException"

definition sink_throwing :: "log_message \<Rightarrow> unit result" where
  "sink_throwing message = Raised (StdException ''sink failed'')"

text \<open>A sink that takes every line but the one about a failed state-change callback.\<close>

fun sink_refusing_faults :: "log_message \<Rightarrow> unit result" where
  "sink_refusing_faults (LogStateCallbackException what) = Raised (StdException ''sink failed'')"
| "sink_refusing_faults message = Returned ()"

text \<open>
  Engines a caller can build from a new one: with one of the observers, with one of the guards
  on \<open>START_MOVEIT\<close>, with the throwing sink, with a callback and a throwing sink; with the
  returning observer and taken to \<open>MOVEIT_STARTING\<close>, and that one given the throwing sink; and
  one in synchronized mode, initialized and running.
\<close>

definition engine_observed :: Fsm where
  "engine_observed = snd (setStateChangeCallback Fsm_init (Some observer_returning))"

definition engine_observer_std :: Fsm where
  "engine_observer_std = snd (setStateChangeCallback Fsm_init (Some observer_throwing_std))"

definition engine_observer_other :: Fsm where
  "engine_observer_other = snd (setStateChangeCallback Fsm_init (Some observer_throwing_other))"

definition engine_guard_std :: Fsm where
  "engine_guard_std = snd (setEventCallback Fsm_init START_MOVEIT (Some guard_throwing_std))"

definition engine_guard_other :: Fsm where
  "engine_guard_other = snd (setEventCallback Fsm_init START_MOVEIT (Some guard_throwing_other))"

definition engine_sink_throwing :: Fsm where
  "engine_sink_throwing = setLogCallback Fsm_init (Some sink_throwing)"

definition engine_observed_sink_throwing :: Fsm where
  "engine_observed_sink_throwing = setLogCallback engine_observed (Some sink_throwing)"

definition engine_observer_std_sink_refusing :: Fsm where
  "engine_observer_std_sink_refusing = setLogCallback engine_observer_std (Some sink_refusing_faults)"

definition engine_guard_std_sink_throwing :: Fsm where
  "engine_guard_std_sink_throwing = setLogCallback engine_guard_std (Some sink_throwing)"

definition engine_starting :: Fsm where
  "engine_starting = snd (triggerEvent engine_observed START_MOVEIT)"

definition engine_starting_sink_throwing :: Fsm where
  "engine_starting_sink_throwing = setLogCallback engine_starting (Some sink_throwing)"

definition engine_synchronized :: Fsm where
  "engine_synchronized = snd (initialize (enableThreadSafety Fsm_init True))"

section \<open>Properties\<close>

subsection \<open>The table built by the constructor is the table of the specification\<close>

lemma setup_find:
  "table_find (setupTransitionTable Map.empty) s e = map_of spec_table (s, e)"
  by (cases s; cases e;
      simp add: table_find_def setupTransitionTable_def table_set_def spec_table_def Let_def)

lemma setup_row: "\<exists>row. setupTransitionTable Map.empty s = Some row"
  by (cases s; simp add: setupTransitionTable_def table_set_def Let_def)

lemma intact_find:
  "table_intact f \<Longrightarrow> table_find (transition_table f) s e = map_of spec_table (s, e)"
  by (simp add: table_intact_def setup_find)

lemma intact_row:
  assumes "table_intact f"
  obtains row where "transition_table f s = Some row" and "row e = map_of spec_table (s, e)"
proof -
  from assms setup_row [of s] obtain row where r: "transition_table f s = Some row"
    by (auto simp: table_intact_def)
  with intact_find [OF assms, of s e] have "row e = map_of spec_table (s, e)"
    by (simp add: table_find_def)
  with r that show thesis by blast
qed

lemma Fsm_init_intact: "table_intact Fsm_init"
  by (simp add: table_intact_def Fsm_init_def)


lemma spec_table_hits:
  "map_of spec_table (IDLE, START_MOVEIT) = Some MOVEIT_STARTING"
  "map_of spec_table (IDLE, ERROR_OCCURRED) = Some ERROR"
  "map_of spec_table (IDLE, RESET_REQUEST) = Some IDLE"
  "map_of spec_table (IDLE, STOP_REQUEST) = None"
  "map_of spec_table (MOVEIT_STARTING, MOVEIT_READY) = Some PLANNING"
  "map_of spec_table (MOVEIT_STARTING, STOP_REQUEST) = Some IDLE"
  by (simp_all add: spec_table_def)

lemma map_of_key: "(map_of xs k \<noteq> None) = (k \<in> fst ` set xs)"
  by (simp add: map_of_eq_None_iff)

lemma table_intact_upd [simp]:
  "table_intact (f\<lparr>trace := t\<rparr>) = table_intact f"
  "table_intact (f\<lparr>current_state := s\<rparr>) = table_intact f"
  "table_intact (f\<lparr>previous_state := s\<rparr>) = table_intact f"
  "table_intact (f\<lparr>running := r\<rparr>) = table_intact f"
  "table_intact (f\<lparr>thread_safe := r\<rparr>) = table_intact f"
  "table_intact (f\<lparr>execution_progress := n\<rparr>) = table_intact f"
  "table_intact (f\<lparr>state_change_callback := c\<rparr>) = table_intact f"
  "table_intact (f\<lparr>event_callbacks := cs\<rparr>) = table_intact f"
  "table_intact (f\<lparr>log_callback := l\<rparr>) = table_intact f"
  by (simp_all add: table_intact_def)

lemma isValidTransition_intact:
  "table_intact f \<Longrightarrow>
     isValidTransition f from to event = (map_of spec_table (from, event) = Some to)"
  by (erule intact_row [of f "from" event]) (auto simp: isValidTransition_def split: option.splits)

subsection \<open>The operations in closed form\<close>

lemma and_then_pair:
  "and_then (r, f) rest = (case r of Returned a \<Rightarrow> rest a f | Raised x \<Rightarrow> (Raised x, f))"
  by (simp add: and_then_def)

lemma logMessage_eq: "logMessage f m = (log_result f m, f\<lparr>trace := trace f @ log_line f m\<rparr>)"
  by (simp add: logMessage_def log_result_def log_line_def split: option.splits)

lemma log_upd [simp]:
  "log_line (f\<lparr>trace := t\<rparr>) = log_line f"
  "log_line (f\<lparr>current_state := s\<rparr>) = log_line f"
  "log_line (f\<lparr>previous_state := s\<rparr>) = log_line f"
  "log_line (f\<lparr>running := r\<rparr>) = log_line f"
  "log_line (f\<lparr>execution_progress := n\<rparr>) = log_line f"
  "log_line (f\<lparr>state_change_callback := c\<rparr>) = log_line f"
  "log_line (f\<lparr>event_callbacks := cs\<rparr>) = log_line f"
  "log_line (f\<lparr>thread_safe := r\<rparr>) = log_line f"
  "log_result (f\<lparr>trace := t\<rparr>) = log_result f"
  "log_result (f\<lparr>current_state := s\<rparr>) = log_result f"
  "log_result (f\<lparr>previous_state := s\<rparr>) = log_result f"
  "log_result (f\<lparr>running := r\<rparr>) = log_result f"
  "log_result (f\<lparr>execution_progress := n\<rparr>) = log_result f"
  "log_result (f\<lparr>state_change_callback := c\<rparr>) = log_result f"
  "log_result (f\<lparr>event_callbacks := cs\<rparr>) = log_result f"
  "log_result (f\<lparr>thread_safe := r\<rparr>) = log_result f"
  by (simp_all add: log_line_def log_result_def fun_eq_iff)

lemma log_line_filter [simp]:
  "filter is_state_change_call (log_line f m) = []"
  "filter is_notify (log_line f m) = []"
  "filter is_event_call (log_line f m) = []"
  by (simp_all add: log_line_def split: option.splits)

lemma log_line_plain:
  "x \<in> set (log_line f m) \<Longrightarrow> \<not> is_notify x"
  "x \<in> set (log_line f m) \<Longrightarrow> \<not> is_state_change_call x"
  by (auto simp: log_line_def split: option.splits)

lemma veto_effects_filter [simp]:
  "filter is_state_change_call (veto_effects f event r) = []"
  "filter is_notify (veto_effects f event r) = []"
  by (simp_all add: veto_effects_def split: result.splits exn.splits)

lemma veto_effects_plain:
  "x \<in> set (veto_effects f event r) \<Longrightarrow> \<not> is_notify x"
  "x \<in> set (veto_effects f event r) \<Longrightarrow> \<not> is_state_change_call x"
  by (auto simp: veto_effects_def log_line_plain split: result.splits exn.splits)

lemma onStateChanged_observer:
  "onStateChanged f old new =
     (observer_result f old new, f\<lparr>trace := trace f @ observer_effects f old new\<rparr>)"
  by (simp add: onStateChanged_def notify_all_def logMessage_eq and_then_pair Let_def
      observer_result_def observer_effects_def
      split: option.splits result.splits exn.splits)

lemma observer_upd [simp]:
  "observer_result (f\<lparr>trace := t\<rparr>) = observer_result f"
  "observer_result (f\<lparr>current_state := s\<rparr>) = observer_result f"
  "observer_result (f\<lparr>previous_state := s\<rparr>) = observer_result f"
  "observer_effects (f\<lparr>trace := t\<rparr>) = observer_effects f"
  "observer_effects (f\<lparr>current_state := s\<rparr>) = observer_effects f"
  "observer_effects (f\<lparr>previous_state := s\<rparr>) = observer_effects f"
  by (simp_all add: observer_result_def observer_effects_def fun_eq_iff
      split: option.splits result.splits exn.splits)

lemma filter_observer_effects:
  "filter is_state_change_call (observer_effects f old new) =
     (if state_change_callback f = None then [] else [StateChangeCall old new])"
  "filter is_notify (observer_effects f old new) =
     (if observer_result f old new = Returned () then [NotifyAll] else [])"
  "filter is_event_call (observer_effects f old new) = []"
  by (simp_all add: observer_effects_def observer_result_def
      split: option.splits result.splits exn.splits)

lemma observer_result_contained:
  "(observer_result f old new = Returned ()) = observer_contained f old new"
  by (simp add: observer_result_def observer_contained_def
      split: option.splits result.splits exn.splits)

lemma commit_fields:
  "current_state (snd (commit f target before)) = target"
  "previous_state (snd (commit f target before)) = current_state f"
  "new_effects f (snd (commit f target before)) =
     before @ log_line f (LogTransition (current_state f) target) @
     (case log_result f (LogTransition (current_state f) target) of
        Raised x \<Rightarrow> []
      | Returned u \<Rightarrow> observer_effects f (current_state f) target)"
  "fst (commit f target before) =
     (case log_result f (LogTransition (current_state f) target) of
        Raised x \<Rightarrow> Raised x
      | Returned u \<Rightarrow>
          (case observer_result f (current_state f) target of
             Returned u \<Rightarrow> Returned True
           | Raised x \<Rightarrow> Raised x))"
  by (simp_all add: commit_def new_effects_def)

lemma executeTransition_commit:
  assumes "table_intact f" and "map_of spec_table (current_state f, event) = Some target"
  shows "executeTransition (f\<lparr>trace := trace f @ before\<rparr>) (current_state f) target event =
         commit f target before"
proof -
  have "isValidTransition (f\<lparr>trace := trace f @ before\<rparr>) (current_state f) target event"
    using assms by (simp add: isValidTransition_intact)
  then show ?thesis
    by (simp add: executeTransition_def commit_def logMessage_eq onStateChanged_observer
        and_then_pair Let_def split: result.splits)
qed

lemma try_event_callback_eq:
  "try_event_callback f cb event =
     (case call_event_callback cb event of
        Returned True \<Rightarrow> (Returned True, f\<lparr>trace := trace f @ [EventCall event]\<rparr>)
      | Returned False \<Rightarrow>
          (case log_result f (LogEventCallbackFailed event) of
             Returned u \<Rightarrow> Returned False
           | Raised x \<Rightarrow> Raised x,
           f\<lparr>trace := trace f @ [EventCall event] @ log_line f (LogEventCallbackFailed event)\<rparr>)
      | Raised x \<Rightarrow> (Raised x, f\<lparr>trace := trace f @ [EventCall event]\<rparr>))"
  by (simp add: try_event_callback_def logMessage_eq and_then_pair Let_def
      split: result.splits bool.splits)

text \<open>\<open>triggerEvent\<close> on a pair the table lists, by what the gating callback does.\<close>

lemma triggerEvent_hit:
  assumes "table_intact f" and "map_of spec_table (current_state f, event) = Some target"
  shows "triggerEvent f event =
     (case event_callbacks f event of
        None \<Rightarrow> commit f target []
      | Some cb \<Rightarrow>
          (if call_event_callback cb event = Returned True
           then commit f target [EventCall event]
           else (veto_result f event (call_event_callback cb event),
                 f\<lparr>trace := trace f @ EventCall event #
                    veto_effects f event (call_event_callback cb event)\<rparr>)))"
proof -
  from assms(1) obtain row where row: "transition_table f (current_state f) = Some row"
    and "row event = map_of spec_table (current_state f, event)"
    by (rule intact_row)
  with assms(2) have hit: "row event = Some target" by simp
  have plain: "executeTransition f (current_state f) target event = commit f target []"
    using executeTransition_commit [OF assms, of "[]"] by simp
  show ?thesis
  proof (cases "event_callbacks f event")
    case None
    then show ?thesis
      by (simp add: triggerEvent_def triggerEvent_data_def triggerEventInternal_def row hit plain)
  next
    case (Some cb)
    show ?thesis
    proof (cases "call_event_callback cb event = Returned True")
      case True
      then show ?thesis
        by (simp add: triggerEvent_def triggerEvent_data_def triggerEventInternal_def row hit Some
            try_event_callback_eq executeTransition_commit [OF assms, simplified])
    next
      case False
      then show ?thesis
        by (simp add: triggerEvent_def triggerEvent_data_def triggerEventInternal_def row hit Some
            try_event_callback_eq veto_result_def veto_effects_def logMessage_eq and_then_pair
            split: result.splits exn.splits bool.splits)
    qed
  qed
qed

lemma triggerEvent_accepted:
  assumes "table_intact f"
    and "map_of spec_table (current_state f, event) = Some target"
    and "event_callbacks f event = None \<or>
         (\<exists>cb. event_callbacks f event = Some cb \<and> call_event_callback cb event = Returned True)"
  shows "triggerEvent f event =
         commit f target (if event_callbacks f event = None then [] else [EventCall event])"
  using assms(3) by (auto simp: triggerEvent_hit [OF assms(1,2)])


lemma triggerEvent_miss:
  assumes "table_intact f" and "map_of spec_table (current_state f, event) = None"
  shows "triggerEvent f event =
         (case log_result f (LogUnsupported (current_state f) event) of
            Returned u \<Rightarrow> Returned False
          | Raised x \<Rightarrow> Raised x,
          f\<lparr>trace := trace f @ log_line f (LogUnsupported (current_state f) event)\<rparr>)"
proof -
  from assms(1) obtain row where "transition_table f (current_state f) = Some row"
    and "row event = map_of spec_table (current_state f, event)"
    by (rule intact_row)
  with assms(2) show ?thesis
    by (simp add: triggerEvent_def triggerEvent_data_def triggerEventInternal_def logMessage_eq
        and_then_pair split: result.splits)
qed

lemma triggerEvent_data_eq: "triggerEvent_data f event data = triggerEvent f event"
  by (simp add: triggerEvent_def triggerEvent_data_def triggerEventInternal_def)

lemma stop_eq:
  "stop f =
     (case fst (triggerEvent f STOP_REQUEST) of Returned b \<Rightarrow> Returned () | Raised x \<Rightarrow> Raised x,
      snd (triggerEvent f STOP_REQUEST))"
  by (simp add: stop_def and_then_def split: prod.splits result.splits)

lemma reset_eq:
  "reset f =
     (case log_result f LogReset of
        Raised x \<Rightarrow> (Raised x, f\<lparr>trace := trace f @ log_line f LogReset\<rparr>)
      | Returned u \<Rightarrow>
          (observer_result f (current_state f) IDLE,
           f\<lparr>previous_state := current_state f,
             current_state := IDLE,
             trace := trace f @ log_line f LogReset @ observer_effects f (current_state f) IDLE\<rparr>))"
  by (simp add: reset_def logMessage_eq onStateChanged_observer and_then_pair Let_def
      split: result.splits)

lemma initialize_eq:
  "initialize f =
     (case log_result f LogInitialize of Returned u \<Rightarrow> Returned True | Raised x \<Rightarrow> Raised x,
      f\<lparr>current_state := IDLE, previous_state := IDLE, running := True, execution_progress := 0,
        trace := trace f @ log_line f LogInitialize\<rparr>)"
  by (simp add: initialize_def logMessage_eq and_then_pair Let_def split: result.splits)

lemma start_eq:
  "start f =
     (case log_result f LogStart of
        Raised x \<Rightarrow> (Raised x, f\<lparr>trace := trace f @ log_line f LogStart\<rparr>)
      | Returned u \<Rightarrow>
          (Returned (),
           f\<lparr>trace := trace f @ log_line f LogStart, running := True, current_state := IDLE\<rparr>))"
  by (simp add: start_def logMessage_eq and_then_pair Let_def split: result.splits)

lemma shutdown_eq:
  "shutdown f =
     (case log_result f LogShutdown of
        Raised x \<Rightarrow> (Raised x, f\<lparr>trace := trace f @ log_line f LogShutdown\<rparr>)
      | Returned u \<Rightarrow>
          (Returned (),
           f\<lparr>trace := trace f @ log_line f LogShutdown @ [NotifyAll], running := False\<rparr>))"
  by (simp add: shutdown_def logMessage_eq notify_all_def and_then_pair Let_def
      split: result.splits)

lemma setStateChangeCallback_eq:
  "setStateChangeCallback f callback =
     (log_result f LogStateCallbackRegistered,
      f\<lparr>state_change_callback := callback,
        trace := trace f @ log_line f LogStateCallbackRegistered\<rparr>)"
  by (simp add: setStateChangeCallback_def logMessage_eq)

lemma setEventCallback_eq:
  "setEventCallback f event callback =
     (log_result f (LogEventCallbackRegistered event),
      f\<lparr>event_callbacks := (event_callbacks f)(event \<mapsto> callback),
        trace := trace f @ log_line f (LogEventCallbackRegistered event)\<rparr>)"
  by (simp add: setEventCallback_def logMessage_eq)

lemma waitForState_engine:
  "waitForState f target timeout wakeups = Some (b, f1) \<Longrightarrow>
     f1 = f \<or> f1 = f\<lparr>trace := trace f @ log_line f LogWaitNeedsThreadSafety\<rparr>"
  by (auto simp: waitForState_def logMessage_eq and_then_pair
      split: if_splits option.splits prod.splits result.splits)

text \<open>
  What \<open>triggerEvent\<close> leaves behind: either the engine with a longer trace that holds neither a
  notification nor an invocation of the observer, or the engine moved along a row of the table.
\<close>

lemma triggerEvent_cases:
  assumes "table_intact f"
  shows "(snd (triggerEvent f event) =
            f\<lparr>trace := trace f @ new_effects f (snd (triggerEvent f event))\<rparr> \<and>
          (\<forall>x \<in> set (new_effects f (snd (triggerEvent f event))).
             \<not> is_notify x \<and> \<not> is_state_change_call x))
       \<or> (\<exists>target. map_of spec_table (current_state f, event) = Some target \<and>
            snd (triggerEvent f event) =
              f\<lparr>previous_state := current_state f, current_state := target,
                trace := trace f @ new_effects f (snd (triggerEvent f event))\<rparr>)"
proof (cases "map_of spec_table (current_state f, event)")
  case None
  then show ?thesis
    by (simp add: triggerEvent_miss [OF assms None] new_effects_def log_line_plain)
next
  case (Some target)
  then show ?thesis
    by (simp add: triggerEvent_hit [OF assms Some] commit_def new_effects_def veto_effects_plain
        split: option.splits)
qed

subsection \<open>Sequences of operations keep the table\<close>

lemma triggerEvent_intact:
  assumes "table_intact f"
  shows "table_intact (snd (triggerEvent f event))"
proof -
  consider (same) xs where "snd (triggerEvent f event) = f\<lparr>trace := xs\<rparr>"
    | (moved) target xs where "snd (triggerEvent f event) =
        f\<lparr>previous_state := current_state f, current_state := target, trace := xs\<rparr>"
    using triggerEvent_cases [OF assms, of event] by blast
  then show ?thesis
  proof cases
    case same
    with assms show ?thesis by simp
  next
    case moved
    with assms show ?thesis by simp
  qed
qed

lemma run_op_intact: "table_intact f \<Longrightarrow> table_intact (run_op op f)"
proof (cases op)
  case (WaitForState target timeout wakeups)
  assume "table_intact f"
  then show ?thesis
    using WaitForState
    by (auto split: option.splits dest!: waitForState_engine)
qed (simp_all add: initialize_eq start_eq stop_eq reset_eq shutdown_eq triggerEvent_data_eq
       triggerEvent_intact getCurrentState_def getCurrentStateName_def isInState_def
       canTransition_def setStateChangeCallback_eq setEventCallback_eq setLogCallback_def
       enableThreadSafety_def logMessage_eq split: result.splits)

lemma run_ops_intact: "table_intact f \<Longrightarrow> table_intact (run_ops ops f)"
  by (induction ops arbitrary: f) (simp_all add: run_op_intact)

lemma reachable_table_intact: "reachable f \<Longrightarrow> table_intact f"
  by (auto simp: reachable_def run_ops_intact Fsm_init_intact)

lemma reachable_run_ops: "reachable (run_ops ops Fsm_init)"
  by (auto simp: reachable_def)

subsection \<open>Which operations notify\<close>

lemma trace_of_update:
  "f1 = f\<lparr>trace := t\<rparr> \<Longrightarrow> trace f1 = t"
  "f1 = f\<lparr>previous_state := p, current_state := c, trace := t\<rparr> \<Longrightarrow> trace f1 = t"
  by simp_all

lemma triggerEvent_extends:
  assumes "table_intact g"
  shows "trace (snd (triggerEvent g event)) = trace g @ new_effects g (snd (triggerEvent g event))"
  using triggerEvent_cases [OF assms, of event]
  by (elim disjE exE conjE) (erule trace_of_update)+

lemma run_op_extends:
  assumes "table_intact g"
  shows "trace (run_op op g) = trace g @ new_effects g (run_op op g)"
proof (cases op)
  case (WaitForState target timeout wakeups)
  then show ?thesis
    by (auto simp: new_effects_def split: option.splits dest!: waitForState_engine)
qed (simp_all add: triggerEvent_extends [OF assms] stop_eq triggerEvent_data_eq,
     simp_all add: new_effects_def initialize_eq start_eq reset_eq shutdown_eq
       getCurrentState_def getCurrentStateName_def isInState_def canTransition_def
       setStateChangeCallback_eq setEventCallback_eq setLogCallback_def enableThreadSafety_def
       logMessage_eq split: result.splits)

lemma run_op_quiet:
  assumes "\<exists>x \<in> set (new_effects g (run_op op g)). is_notify x \<or> is_state_change_call x"
  shows "op = Reset \<or> op = Shutdown \<or> op = Stop \<or>
         (\<exists>event. op = TriggerEvent event) \<or> (\<exists>event data. op = TriggerEventData event data)"
proof (cases op)
  case (WaitForState target timeout wakeups)
  with assms show ?thesis
    by (auto simp: new_effects_def log_line_plain
        split: option.splits dest!: waitForState_engine)
qed (use assms in \<open>auto simp: new_effects_def initialize_eq start_eq
       getCurrentState_def getCurrentStateName_def isInState_def canTransition_def
       setStateChangeCallback_eq setEventCallback_eq setLogCallback_def enableThreadSafety_def
       logMessage_eq log_line_plain split: result.splits\<close>)

lemma triggerEvent_notifies_committed:
  assumes "table_intact g"
    and "\<exists>x \<in> set (new_effects g (snd (triggerEvent g event))). is_notify x \<or> is_state_change_call x"
  shows "map_of spec_table (current_state g, event) = Some (current_state (snd (triggerEvent g event))) \<and>
         previous_state (snd (triggerEvent g event)) = current_state g"
proof -
  consider (same) "\<forall>x \<in> set (new_effects g (snd (triggerEvent g event))).
        \<not> is_notify x \<and> \<not> is_state_change_call x"
    | (moved) target xs where "map_of spec_table (current_state g, event) = Some target"
        and "snd (triggerEvent g event) =
          g\<lparr>previous_state := current_state g, current_state := target, trace := xs\<rparr>"
    using triggerEvent_cases [OF assms(1), of event] by blast
  then show ?thesis
  proof cases
    case same
    with assms(2) show ?thesis by blast
  next
    case moved
    then show ?thesis by simp
  qed
qed

subsection \<open>The example engines\<close>

lemma default_sink [simp]:
  "log_result Fsm_init m = Returned ()"
  "log_line Fsm_init m = [Log m]"
  by (simp_all add: log_result_def log_line_def Fsm_init_def defaultLogCallback_def)

lemma engine_observed_eq:
  "engine_observed = Fsm_init\<lparr>state_change_callback := Some observer_returning,
     trace := [Log LogStateCallbackRegistered]\<rparr>"
  "engine_observer_std = Fsm_init\<lparr>state_change_callback := Some observer_throwing_std,
     trace := [Log LogStateCallbackRegistered]\<rparr>"
  "engine_observer_other = Fsm_init\<lparr>state_change_callback := Some observer_throwing_other,
     trace := [Log LogStateCallbackRegistered]\<rparr>"
  by (simp_all add: engine_observed_def engine_observer_std_def engine_observer_other_def
      setStateChangeCallback_eq)
     (simp_all add: Fsm_init_def)

lemma engine_guard_eq:
  "engine_guard_std = Fsm_init\<lparr>event_callbacks := [START_MOVEIT \<mapsto> Some guard_throwing_std],
     trace := [Log (LogEventCallbackRegistered START_MOVEIT)]\<rparr>"
  "engine_guard_other = Fsm_init\<lparr>event_callbacks := [START_MOVEIT \<mapsto> Some guard_throwing_other],
     trace := [Log (LogEventCallbackRegistered START_MOVEIT)]\<rparr>"
  by (simp_all add: engine_guard_std_def engine_guard_other_def setEventCallback_eq)
     (simp_all add: Fsm_init_def)

lemma engine_starting_eq:
  "engine_starting =
     Fsm_init\<lparr>state_change_callback := Some observer_returning,
       previous_state := IDLE, current_state := MOVEIT_STARTING,
       trace := [Log LogStateCallbackRegistered,
                 Log (LogTransition IDLE MOVEIT_STARTING),
                 StateChangeCall IDLE MOVEIT_STARTING, NotifyAll]\<rparr>"
proof -
  let ?f = "engine_observed"
  have cur: "current_state ?f = IDLE"
    by (simp add: engine_observed_eq) (simp add: Fsm_init_def)
  have h1: "table_intact ?f"
    by (simp add: engine_observed_eq Fsm_init_intact)
  have h2: "map_of spec_table (current_state ?f, START_MOVEIT) = Some MOVEIT_STARTING"
    by (simp add: cur spec_table_hits)
  have h3: "event_callbacks ?f START_MOVEIT = None"
    by (simp add: engine_observed_eq) (simp add: Fsm_init_def)
  have "snd (triggerEvent ?f START_MOVEIT) = snd (commit ?f MOVEIT_STARTING [])"
    by (simp add: triggerEvent_hit [OF h1 h2] h3)
  also have "\<dots> = Fsm_init\<lparr>state_change_callback := Some observer_returning,
       previous_state := IDLE, current_state := MOVEIT_STARTING,
       trace := [Log LogStateCallbackRegistered,
                 Log (LogTransition IDLE MOVEIT_STARTING),
                 StateChangeCall IDLE MOVEIT_STARTING, NotifyAll]\<rparr>"
    by (simp add: commit_def engine_observed_eq observer_effects_def observer_returning_def)
       (simp add: Fsm_init_def)
  finally show ?thesis by (simp add: engine_starting_def)
qed

lemma example_engines_intact:
  "table_intact engine_observed"
  "table_intact engine_observer_std"
  "table_intact engine_observer_other"
  "table_intact engine_guard_std"
  "table_intact engine_guard_other"
  "table_intact engine_sink_throwing"
  "table_intact engine_starting"
  "table_intact engine_starting_sink_throwing"
  by (simp_all add: engine_observed_eq engine_guard_eq engine_starting_eq engine_sink_throwing_def
      engine_starting_sink_throwing_def setLogCallback_def Fsm_init_intact)

lemma example_engines_state:
  "current_state engine_observed = IDLE"
  "current_state engine_observer_std = IDLE"
  "current_state engine_observer_other = IDLE"
  "current_state engine_guard_std = IDLE"
  "current_state engine_guard_other = IDLE"
  "current_state engine_sink_throwing = IDLE"
  "current_state engine_starting = MOVEIT_STARTING"
  "current_state engine_starting_sink_throwing = MOVEIT_STARTING"
  by (simp_all add: engine_observed_eq engine_guard_eq engine_starting_eq engine_sink_throwing_def
      engine_starting_sink_throwing_def setLogCallback_def)
     (simp_all add: Fsm_init_def)

lemma example_engines_sink:
  "log_result engine_observed m = Returned ()"
  "log_result engine_observer_std m = Returned ()"
  "log_result engine_observer_other m = Returned ()"
  "log_result engine_guard_std m = Returned ()"
  "log_result engine_guard_other m = Returned ()"
  "log_result engine_starting m = Returned ()"
  "log_result engine_sink_throwing m = Raised (StdException ''sink failed'')"
  "log_result engine_starting_sink_throwing m = Raised (StdException ''sink failed'')"
  "log_line engine_observed m = [Log m]"
  "log_line engine_observer_std m = [Log m]"
  "log_line engine_observer_other m = [Log m]"
  "log_line engine_guard_std m = [Log m]"
  "log_line engine_guard_other m = [Log m]"
  "log_line engine_starting m = [Log m]"
  "log_line engine_sink_throwing m = [Log m]"
  "log_line engine_starting_sink_throwing m = [Log m]"
  by (simp_all add: engine_observed_eq engine_guard_eq engine_starting_eq engine_sink_throwing_def
      engine_starting_sink_throwing_def setLogCallback_def)
     (simp_all add: log_result_def log_line_def sink_throwing_def)

lemma example_engines_callbacks:
  "state_change_callback Fsm_init = None"
  "state_change_callback engine_observed = Some observer_returning"
  "state_change_callback engine_observer_std = Some observer_throwing_std"
  "state_change_callback engine_observer_other = Some observer_throwing_other"
  "state_change_callback engine_sink_throwing = None"
  "state_change_callback engine_starting = Some observer_returning"
  "state_change_callback engine_starting_sink_throwing = Some observer_returning"
  "event_callbacks Fsm_init e = None"
  "event_callbacks engine_observed e = None"
  "event_callbacks engine_observer_std e = None"
  "event_callbacks engine_observer_other e = None"
  "event_callbacks engine_sink_throwing e = None"
  "event_callbacks engine_starting e = None"
  "event_callbacks engine_starting_sink_throwing e = None"
  "event_callbacks engine_guard_std START_MOVEIT = Some (Some guard_throwing_std)"
  "event_callbacks engine_guard_other START_MOVEIT = Some (Some guard_throwing_other)"
  by (simp_all add: engine_observed_eq engine_guard_eq engine_starting_eq engine_sink_throwing_def
      engine_starting_sink_throwing_def setLogCallback_def)
     (simp_all add: Fsm_init_def)

lemma example_engines_with_sink:
  "table_intact engine_observed_sink_throwing"
  "table_intact engine_observer_std_sink_refusing"
  "table_intact engine_guard_std_sink_throwing"
  "current_state engine_observed_sink_throwing = IDLE"
  "current_state engine_observer_std_sink_refusing = IDLE"
  "current_state engine_guard_std_sink_throwing = IDLE"
  "state_change_callback engine_observed_sink_throwing = Some observer_returning"
  "state_change_callback engine_observer_std_sink_refusing = Some observer_throwing_std"
  "event_callbacks engine_observed_sink_throwing e = None"
  "event_callbacks engine_observer_std_sink_refusing e = None"
  "event_callbacks engine_guard_std_sink_throwing START_MOVEIT = Some (Some guard_throwing_std)"
  by (simp_all add: engine_observed_sink_throwing_def engine_observer_std_sink_refusing_def
      engine_guard_std_sink_throwing_def setLogCallback_def example_engines_intact
      example_engines_state example_engines_callbacks)

subsection \<open>The scenarios of the specification\<close>

text \<open>
  The end-to-end scenarios of section 8 of the specification, run on the definitions as they are
  translated from fsm.cpp.
\<close>

lemmas source_defs =
  initialize_def start_def stop_def reset_def shutdown_def triggerEvent_def triggerEvent_data_def
  triggerEventInternal_def try_event_callback_def executeTransition_def onStateChanged_def
  isValidTransition_def logMessage_def notify_all_def and_then_def Fsm_init_def
  defaultLogCallback_def setupTransitionTable_def table_set_def Let_def call_event_callback_def

lemma scenario_obstacle_then_stop:
  "map current_state
     [run_ops [Initialize] Fsm_init,
      run_ops [Initialize, TriggerEvent START_MOVEIT] Fsm_init,
      run_ops [Initialize, TriggerEvent START_MOVEIT, TriggerEvent MOVEIT_READY] Fsm_init,
      run_ops [Initialize, TriggerEvent START_MOVEIT, TriggerEvent MOVEIT_READY,
               TriggerEvent OBSTACLE_APPEARED] Fsm_init,
      run_ops [Initialize, TriggerEvent START_MOVEIT, TriggerEvent MOVEIT_READY,
               TriggerEvent OBSTACLE_APPEARED, TriggerEvent STOP_REQUEST] Fsm_init]
   = [IDLE, MOVEIT_STARTING, PLANNING, OBSTACLE_DETECTED, IDLE]"
  by (simp add: source_defs)

lemma scenario_planning_failed_then_reset:
  "map current_state
     [run_ops [Initialize, TriggerEvent START_MOVEIT, TriggerEvent MOVEIT_READY,
               TriggerEvent PLANNING_FAILED] Fsm_init,
      run_ops [Initialize, TriggerEvent START_MOVEIT, TriggerEvent MOVEIT_READY,
               TriggerEvent PLANNING_FAILED, TriggerEvent RESET_REQUEST] Fsm_init]
   = [ERROR, IDLE]"
  by (simp add: source_defs)

lemma scenario_obstacle_cleared:
  "fst (triggerEvent (run_ops [Initialize] Fsm_init) OBSTACLE_CLEARED) = Returned False \<and>
   current_state (snd (triggerEvent (run_ops [Initialize] Fsm_init) OBSTACLE_CLEARED)) = IDLE"
  by (simp add: source_defs)

text \<open>A sink that throws, on the definitions as they are: the exception leaves the operations.\<close>

lemma scenario_throwing_sink:
  "fst (triggerEvent engine_sink_throwing STOP_REQUEST) = Raised (StdException ''sink failed'') \<and>
   fst (stop engine_sink_throwing) = Raised (StdException ''sink failed'') \<and>
   fst (start engine_sink_throwing) = Raised (StdException ''sink failed'') \<and>
   fst (shutdown engine_sink_throwing) = Raised (StdException ''sink failed'') \<and>
   trace (snd (shutdown engine_sink_throwing)) = [Log LogShutdown] \<and>
   fst (triggerEvent engine_sink_throwing START_MOVEIT) = Raised (StdException ''sink failed'') \<and>
   current_state (snd (triggerEvent engine_sink_throwing START_MOVEIT)) = MOVEIT_STARTING \<and>
   trace (snd (triggerEvent engine_sink_throwing START_MOVEIT)) = [Log (LogTransition IDLE MOVEIT_STARTING)]"
  by (simp add: source_defs engine_sink_throwing_def setLogCallback_def sink_throwing_def)

section \<open>The claims\<close>

subsection \<open>C1: a timed wait that is ended by shutdown\<close>

text \<open>
  Claim C1 says that a wait with a positive timeout which ends because \<open>running\<close> became false,
  the target never reached, returns failure. The code returns success there: a synchronized,
  running engine in \<open>IDLE\<close> is waited on for \<open>ERROR\<close> with a timeout of 1000 ms; \<open>shutdown\<close>
  wakes the waiter, which finds \<open>IDLE\<close> and \<open>running\<close> false; the predicate of \<^verbatim>\<open>wait_for\<close> is
  true, and \<open>waitForState\<close> returns that value. With the timeout 0 the same wait returns false,
  because that branch returns \<^verbatim>\<open>current_state_ == target_state\<close>.
\<close>

theorem C1_shutdown_wakes_timed_wait_with_success:
  "thread_safe engine_synchronized \<and>
   running engine_synchronized \<and>
   current_state engine_synchronized = IDLE \<and>
   running (snd (shutdown engine_synchronized)) = False \<and>
   current_state (snd (shutdown engine_synchronized)) = IDLE \<and>
   map_option fst (waitForState engine_synchronized ERROR 1000 [(cv_no_timeout, IDLE, False)])
     = Some (Returned True) \<and>
   map_option fst (waitForState engine_synchronized ERROR 0 [(cv_no_timeout, IDLE, False)])
     = Some (Returned False)"
  by (simp add: engine_synchronized_def initialize_eq shutdown_eq enableThreadSafety_def
      waitForState_def)

text \<open>
  The same for any engine, target and positive timeout, also after spurious wake-ups; and the
  branch without timeout, which answers as the claim says.
\<close>

lemma cv_wait_for_notified:
  assumes "\<forall>w \<in> set wakeups. fst w = cv_no_timeout \<and> \<not> pred (snd w)" and "\<not> pred v" and "pred v1"
  shows "cv_wait_for pred v (wakeups @ [(cv_no_timeout, v1)]) = Some (True, v1)"
  using assms by (induction wakeups arbitrary: v) simp_all

lemma waitForState_timed_shutdown:
  assumes "thread_safe f" and "current_state f \<noteq> target" and "running f" and "0 < timeout"
    and "\<forall>w \<in> set wakeups. fst w = cv_no_timeout \<and> fst (snd w) \<noteq> target \<and> snd (snd w)"
  shows "map_option fst (waitForState f target timeout (wakeups @ [(cv_no_timeout, s, False)]))
         = Some (Returned True)"
proof -
  let ?pred = "\<lambda>(s, r). s = target \<or> \<not> r"
  have "\<forall>w \<in> set wakeups. fst w = cv_no_timeout \<and> \<not> ?pred (snd w)"
    using assms(5) by (auto simp: case_prod_beta)
  moreover have "\<not> ?pred (current_state f, running f)" "?pred (s, False)"
    using assms(2,3) by simp_all
  ultimately have "cv_wait_for ?pred (current_state f, running f) (wakeups @ [(cv_no_timeout, s, False)])
      = Some (True, s, False)"
    by (rule cv_wait_for_notified)
  with assms(1,2,4) show ?thesis
    by (simp add: waitForState_def)
qed

lemma waitForState_untimed_shutdown:
  assumes "thread_safe f" and "current_state f \<noteq> target" and "running f" and "timeout \<le> 0"
    and "s \<noteq> target"
  shows "map_option fst (waitForState f target timeout [(cv_no_timeout, s, False)])
         = Some (Returned False)"
  using assms by (simp add: waitForState_def)

subsection \<open>C2: events the table does not list\<close>




subsection \<open>C3: events the table lists\<close>

text \<open>
  Claim C3, amended. When the pair of the current state and the event is a row of the table and
  the event has no gating callback or one that returns true, \<open>triggerEvent\<close> sets \<open>current_state\<close>
  to the target of the row and \<open>previous_state\<close> to the state before. If the log sink returns on
  the line about the transition, the registered state-change callback is invoked exactly once,
  with the old and the new state. If moreover that callback returns, or throws a
  \<^verbatim>\<open>std::exception\<close> whose log line the sink takes, \<open>triggerEvent\<close> returns true and the waiters
  are notified once.
\<close>

theorem C3_listed_event_commits:
  assumes "table_intact f"
    and "map_of spec_table (current_state f, event) = Some target"
    and "event_callbacks f event = None \<or>
         (\<exists>cb. event_callbacks f event = Some cb \<and> call_event_callback cb event = Returned True)"
  shows "current_state (snd (triggerEvent f event)) = target \<and>
         previous_state (snd (triggerEvent f event)) = current_state f \<and>
         (log_result f (LogTransition (current_state f) target) = Returned () \<longrightarrow>
            filter is_state_change_call (new_effects f (snd (triggerEvent f event))) =
              (if state_change_callback f = None then []
               else [StateChangeCall (current_state f) target]) \<and>
            (observer_contained f (current_state f) target \<longrightarrow>
               fst (triggerEvent f event) = Returned True \<and>
               filter is_notify (new_effects f (snd (triggerEvent f event))) = [NotifyAll]))"
proof -
  have ok: "observer_result f (current_state f) target = Returned ()"
    if "observer_contained f (current_state f) target"
    using that by (simp add: observer_result_contained)
  show ?thesis
    unfolding triggerEvent_accepted [OF assms] commit_fields
    by (auto simp: filter_observer_effects ok)
qed

text \<open>\<open>START_MOVEIT\<close> on a new engine that has an observer which returns.\<close>

theorem C3_witness:
  "table_intact engine_observed \<and>
   map_of spec_table (current_state engine_observed, START_MOVEIT) = Some MOVEIT_STARTING \<and>
   event_callbacks engine_observed START_MOVEIT = None \<and>
   state_change_callback engine_observed = Some observer_returning \<and>
   log_result engine_observed (LogTransition IDLE MOVEIT_STARTING) = Returned () \<and>
   observer_contained engine_observed IDLE MOVEIT_STARTING \<and>
   fst (triggerEvent engine_observed START_MOVEIT) = Returned True \<and>
   current_state (snd (triggerEvent engine_observed START_MOVEIT)) = MOVEIT_STARTING \<and>
   previous_state (snd (triggerEvent engine_observed START_MOVEIT)) = IDLE \<and>
   filter is_state_change_call
     (new_effects engine_observed (snd (triggerEvent engine_observed START_MOVEIT)))
     = [StateChangeCall IDLE MOVEIT_STARTING] \<and>
   filter is_notify
     (new_effects engine_observed (snd (triggerEvent engine_observed START_MOVEIT)))
     = [NotifyAll]"
proof -
  let ?f = "engine_observed"
  have h1: "table_intact ?f" by (rule example_engines_intact)
  have h2: "map_of spec_table (current_state ?f, START_MOVEIT) = Some MOVEIT_STARTING"
    by (simp add: example_engines_state spec_table_hits)
  have h3: "event_callbacks ?f START_MOVEIT = None \<or>
    (\<exists>cb. event_callbacks ?f START_MOVEIT = Some cb \<and> call_event_callback cb START_MOVEIT = Returned True)"
    by (simp add: example_engines_callbacks)
  have oc: "observer_contained ?f IDLE MOVEIT_STARTING"
    by (simp add: observer_contained_def example_engines_callbacks observer_returning_def)
  show ?thesis
    using h1 h2 oc C3_listed_event_commits [OF h1 h2 h3]
    by (simp add: example_engines_state example_engines_callbacks example_engines_sink)
qed

text \<open>
  Claim C3 as stated fails in two ways. With an observer that throws an object that is not a
  \<^verbatim>\<open>std::exception\<close>, a listed event without gating callback does not make \<open>triggerEvent\<close> return
  true: the exception leaves \<open>triggerEvent\<close>. With a sink that throws, \<open>triggerEvent\<close> is left
  after the state is written and before the observer is invoked.
\<close>

theorem C3_counterexample:
  "table_intact engine_observer_other \<and>
   map_of spec_table (current_state engine_observer_other, START_MOVEIT) = Some MOVEIT_STARTING \<and>
   event_callbacks engine_observer_other START_MOVEIT = None \<and>
   fst (triggerEvent engine_observer_other START_MOVEIT) = Raised OtherException \<and>
   fst (triggerEvent engine_observer_other START_MOVEIT) \<noteq> Returned True \<and>
   map_of spec_table (current_state engine_observed_sink_throwing, START_MOVEIT) = Some MOVEIT_STARTING \<and>
   event_callbacks engine_observed_sink_throwing START_MOVEIT = None \<and>
   state_change_callback engine_observed_sink_throwing = Some observer_returning \<and>
   fst (triggerEvent engine_observed_sink_throwing START_MOVEIT) = Raised (StdException ''sink failed'') \<and>
   current_state (snd (triggerEvent engine_observed_sink_throwing START_MOVEIT)) = MOVEIT_STARTING \<and>
   filter is_state_change_call
     (new_effects engine_observed_sink_throwing
        (snd (triggerEvent engine_observed_sink_throwing START_MOVEIT))) = []"
proof -
  have a: "table_intact engine_observer_other"
    "map_of spec_table (current_state engine_observer_other, START_MOVEIT) = Some MOVEIT_STARTING"
    "event_callbacks engine_observer_other START_MOVEIT = None"
    by (simp_all add: example_engines_intact example_engines_state example_engines_callbacks
        spec_table_hits)
  have b: "fst (triggerEvent engine_observer_other START_MOVEIT) = Raised OtherException"
    by (simp add: source_defs engine_observer_other_def setStateChangeCallback_def
        observer_throwing_other_def)
  have c: "map_of spec_table (current_state engine_observed_sink_throwing, START_MOVEIT) = Some MOVEIT_STARTING"
    "event_callbacks engine_observed_sink_throwing START_MOVEIT = None"
    "state_change_callback engine_observed_sink_throwing = Some observer_returning"
    by (simp_all add: engine_observed_sink_throwing_def setLogCallback_def example_engines_state
        example_engines_callbacks spec_table_hits)
  have d: "fst (triggerEvent engine_observed_sink_throwing START_MOVEIT) = Raised (StdException ''sink failed'')"
    "current_state (snd (triggerEvent engine_observed_sink_throwing START_MOVEIT)) = MOVEIT_STARTING"
    "filter is_state_change_call
       (new_effects engine_observed_sink_throwing
          (snd (triggerEvent engine_observed_sink_throwing START_MOVEIT))) = []"
    by (simp_all add: source_defs new_effects_def engine_observed_sink_throwing_def
        engine_observed_def setStateChangeCallback_def setLogCallback_def sink_throwing_def)
  from a b c d show ?thesis by simp
qed

subsection \<open>C4: the query canTransition\<close>

text \<open>
  Claim C4. \<open>canTransition\<close> returns true exactly when the pair of the current state and the event
  is a key of the transition table (a row of the specification's table, and an entry of the
  engine's own nested table), and it leaves the engine as it was: no member changes and the trace
  gains nothing, so no callback is invoked.
\<close>

theorem C4_canTransition_is_table_membership:
  assumes "table_intact f"
  shows "fst (canTransition f event) = ((current_state f, event) \<in> fst ` set spec_table) \<and>
         fst (canTransition f event) = (table_find (transition_table f) (current_state f) event \<noteq> None) \<and>
         snd (canTransition f event) = f"
proof -
  have "fst (canTransition f event) = (table_find (transition_table f) (current_state f) event \<noteq> None)"
    by (simp add: canTransition_def canTransitionInternal_def table_find_def split: option.splits)
  moreover have "(table_find (transition_table f) (current_state f) event \<noteq> None) =
      ((current_state f, event) \<in> fst ` set spec_table)"
    using assms by (simp only: intact_find map_of_key)
  ultimately show ?thesis by (simp add: canTransition_def)
qed

text \<open>On a new engine \<open>START_MOVEIT\<close> is possible and \<open>STOP_REQUEST\<close> is not.\<close>

theorem C4_witness:
  "table_intact Fsm_init \<and>
   fst (canTransition Fsm_init START_MOVEIT) = True \<and>
   (current_state Fsm_init, START_MOVEIT) \<in> fst ` set spec_table \<and>
   fst (canTransition Fsm_init STOP_REQUEST) = False \<and>
   (current_state Fsm_init, STOP_REQUEST) \<notin> fst ` set spec_table \<and>
   snd (canTransition Fsm_init START_MOVEIT) = Fsm_init"
proof -
  have h: "table_intact Fsm_init" by (rule Fsm_init_intact)
  have a: "(current_state Fsm_init, START_MOVEIT) \<in> fst ` set spec_table"
    by (simp add: Fsm_init_def spec_table_def)
  have b: "(current_state Fsm_init, STOP_REQUEST) \<notin> fst ` set spec_table"
    by (simp add: Fsm_init_def spec_table_def)
  show ?thesis
    using h a b C4_canTransition_is_table_membership [OF h, of START_MOVEIT]
      C4_canTransition_is_table_membership [OF h, of STOP_REQUEST]
    by simp
qed

subsection \<open>C5: a gating callback that refuses\<close>




subsection \<open>C6: a state-change callback that fails\<close>

text \<open>
  Claim C6, amended. In a committed transition the state is written before the state-change
  callback runs, so a fault of the callback does not roll the transition back: \<open>current_state\<close>
  stays the target and \<open>previous_state\<close> stays the old state. The callback is reached when the log
  sink returns on the line about the transition. When its fault is a \<^verbatim>\<open>std::exception\<close>, the
  fault is caught and logged, and if the sink returns on that line, the waiters are notified and
  \<open>triggerEvent\<close> returns true.
\<close>

theorem C6_observer_fault_keeps_transition:
  assumes "table_intact f"
    and "map_of spec_table (current_state f, event) = Some target"
    and "event_callbacks f event = None \<or>
         (\<exists>cb. event_callbacks f event = Some cb \<and> call_event_callback cb event = Returned True)"
    and "state_change_callback f = Some observer"
    and "observer (current_state f) target = Raised x"
  shows "current_state (snd (triggerEvent f event)) = target \<and>
         previous_state (snd (triggerEvent f event)) = current_state f \<and>
         (log_result f (LogTransition (current_state f) target) = Returned () \<longrightarrow>
            filter is_state_change_call (new_effects f (snd (triggerEvent f event))) =
              [StateChangeCall (current_state f) target] \<and>
            (x = StdException what \<and>
             log_result f (LogStateCallbackException what) = Returned () \<longrightarrow>
               fst (triggerEvent f event) = Returned True \<and>
               set (log_line f (LogStateCallbackException what)) \<subseteq>
                 set (new_effects f (snd (triggerEvent f event))) \<and>
               filter is_notify (new_effects f (snd (triggerEvent f event))) = [NotifyAll]))"
proof -
  have ok: "observer_result f (current_state f) target = Returned ()"
    if "x = StdException what" "log_result f (LogStateCallbackException what) = Returned ()"
    using assms(4,5) that by (simp add: observer_result_def)
  have eff: "observer_effects f (current_state f) target =
      StateChangeCall (current_state f) target # log_line f (LogStateCallbackException what) @ [NotifyAll]"
    if "x = StdException what" "log_result f (LogStateCallbackException what) = Returned ()"
    using assms(4,5) that by (simp add: observer_effects_def)
  show ?thesis
    unfolding triggerEvent_accepted [OF assms(1-3)] commit_fields
    using assms(4) by (auto simp: filter_observer_effects ok eff)
qed

text \<open>\<open>ERROR_OCCURRED\<close> on a new engine whose observer throws a \<^verbatim>\<open>std::exception\<close>.\<close>

theorem C6_witness:
  "table_intact engine_observer_std \<and>
   map_of spec_table (current_state engine_observer_std, ERROR_OCCURRED) = Some ERROR \<and>
   event_callbacks engine_observer_std ERROR_OCCURRED = None \<and>
   state_change_callback engine_observer_std = Some observer_throwing_std \<and>
   observer_throwing_std IDLE ERROR = Raised (StdException ''observer failed'') \<and>
   log_result engine_observer_std (LogTransition IDLE ERROR) = Returned () \<and>
   log_result engine_observer_std (LogStateCallbackException ''observer failed'') = Returned () \<and>
   fst (triggerEvent engine_observer_std ERROR_OCCURRED) = Returned True \<and>
   current_state (snd (triggerEvent engine_observer_std ERROR_OCCURRED)) = ERROR \<and>
   previous_state (snd (triggerEvent engine_observer_std ERROR_OCCURRED)) = IDLE \<and>
   filter is_notify
     (new_effects engine_observer_std (snd (triggerEvent engine_observer_std ERROR_OCCURRED)))
     = [NotifyAll]"
proof -
  let ?f = "engine_observer_std"
  have h1: "table_intact ?f" by (rule example_engines_intact)
  have h2: "map_of spec_table (current_state ?f, ERROR_OCCURRED) = Some ERROR"
    by (simp add: example_engines_state spec_table_hits)
  have g: "event_callbacks ?f ERROR_OCCURRED = None" by (rule example_engines_callbacks)
  then have h3: "event_callbacks ?f ERROR_OCCURRED = None \<or>
    (\<exists>cb. event_callbacks ?f ERROR_OCCURRED = Some cb \<and> call_event_callback cb ERROR_OCCURRED = Returned True)"
    by simp
  have h4: "state_change_callback ?f = Some observer_throwing_std"
    by (rule example_engines_callbacks)
  have h5: "observer_throwing_std (current_state ?f) ERROR = Raised (StdException ''observer failed'')"
    by (simp add: observer_throwing_std_def)
  show ?thesis
    using h1 h2 g h4 h5
      C6_observer_fault_keeps_transition [where what = "''observer failed''", OF h1 h2 h3 h4 h5]
    by (simp add: example_engines_state example_engines_sink)
qed

text \<open>
  Claim C6 as stated fails in two ways. When the observer throws an object that is not a
  \<^verbatim>\<open>std::exception\<close>, the transition stays committed but the fault is not caught, and
  \<open>triggerEvent\<close> does not return true. And when the observer throws a \<^verbatim>\<open>std::exception\<close> but the
  sink throws on the line the handler logs, the sink's exception leaves \<open>triggerEvent\<close> before the
  waiters are notified.
\<close>

theorem C6_counterexample:
  "table_intact engine_observer_other \<and>
   map_of spec_table (current_state engine_observer_other, ERROR_OCCURRED) = Some ERROR \<and>
   event_callbacks engine_observer_other ERROR_OCCURRED = None \<and>
   state_change_callback engine_observer_other = Some observer_throwing_other \<and>
   observer_throwing_other IDLE ERROR = Raised OtherException \<and>
   current_state (snd (triggerEvent engine_observer_other ERROR_OCCURRED)) = ERROR \<and>
   fst (triggerEvent engine_observer_other ERROR_OCCURRED) = Raised OtherException \<and>
   fst (triggerEvent engine_observer_other ERROR_OCCURRED) \<noteq> Returned True \<and>
   table_intact engine_observer_std_sink_refusing \<and>
   map_of spec_table (current_state engine_observer_std_sink_refusing, ERROR_OCCURRED) = Some ERROR \<and>
   event_callbacks engine_observer_std_sink_refusing ERROR_OCCURRED = None \<and>
   state_change_callback engine_observer_std_sink_refusing = Some observer_throwing_std \<and>
   observer_throwing_std IDLE ERROR = Raised (StdException ''observer failed'') \<and>
   filter is_state_change_call
     (new_effects engine_observer_std_sink_refusing
        (snd (triggerEvent engine_observer_std_sink_refusing ERROR_OCCURRED)))
     = [StateChangeCall IDLE ERROR] \<and>
   fst (triggerEvent engine_observer_std_sink_refusing ERROR_OCCURRED)
     = Raised (StdException ''sink failed'') \<and>
   filter is_notify
     (new_effects engine_observer_std_sink_refusing
        (snd (triggerEvent engine_observer_std_sink_refusing ERROR_OCCURRED))) = []"
proof -
  have a: "table_intact engine_observer_other"
    "map_of spec_table (current_state engine_observer_other, ERROR_OCCURRED) = Some ERROR"
    "event_callbacks engine_observer_other ERROR_OCCURRED = None"
    "state_change_callback engine_observer_other = Some observer_throwing_other"
    "table_intact engine_observer_std_sink_refusing"
    "map_of spec_table (current_state engine_observer_std_sink_refusing, ERROR_OCCURRED) = Some ERROR"
    "event_callbacks engine_observer_std_sink_refusing ERROR_OCCURRED = None"
    "state_change_callback engine_observer_std_sink_refusing = Some observer_throwing_std"
    by (simp_all add: example_engines_intact example_engines_state example_engines_callbacks
        example_engines_with_sink spec_table_hits)
  have r: "observer_throwing_other IDLE ERROR = Raised OtherException"
    "observer_throwing_std IDLE ERROR = Raised (StdException ''observer failed'')"
    by (simp_all add: observer_throwing_other_def observer_throwing_std_def)
  have b: "current_state (snd (triggerEvent engine_observer_other ERROR_OCCURRED)) = ERROR"
    "fst (triggerEvent engine_observer_other ERROR_OCCURRED) = Raised OtherException"
    by (simp_all add: source_defs engine_observer_other_def setStateChangeCallback_def
        observer_throwing_other_def)
  have c: "filter is_state_change_call
       (new_effects engine_observer_std_sink_refusing
          (snd (triggerEvent engine_observer_std_sink_refusing ERROR_OCCURRED)))
       = [StateChangeCall IDLE ERROR]"
    "fst (triggerEvent engine_observer_std_sink_refusing ERROR_OCCURRED)
       = Raised (StdException ''sink failed'')"
    "filter is_notify
       (new_effects engine_observer_std_sink_refusing
          (snd (triggerEvent engine_observer_std_sink_refusing ERROR_OCCURRED))) = []"
    by (simp_all add: source_defs new_effects_def engine_observer_std_sink_refusing_def
        engine_observer_std_def setStateChangeCallback_def setLogCallback_def
        observer_throwing_std_def)
  from a r b c show ?thesis by simp
qed

subsection \<open>C7: reset\<close>

text \<open>
  Claim C7, amended. \<open>reset\<close> logs first. If the log sink returns on that line, then, whatever
  the state before, and also when it was \<open>IDLE\<close> already, \<open>reset\<close> sets \<open>current_state\<close> to
  \<open>IDLE\<close>, puts the state before into \<open>previous_state\<close>, and invokes the registered state-change
  callback exactly once; and if that callback returns, or throws a \<^verbatim>\<open>std::exception\<close> whose log
  line the sink takes, \<open>reset\<close> returns and wakes the waiters exactly once.
\<close>

theorem C7_reset_forces_idle_and_notifies:
  "log_result f LogReset = Returned () \<longrightarrow>
     current_state (snd (reset f)) = IDLE \<and>
     previous_state (snd (reset f)) = current_state f \<and>
     filter is_state_change_call (new_effects f (snd (reset f))) =
       (if state_change_callback f = None then [] else [StateChangeCall (current_state f) IDLE]) \<and>
     (observer_contained f (current_state f) IDLE \<longrightarrow>
        fst (reset f) = Returned () \<and>
        filter is_notify (new_effects f (snd (reset f))) = [NotifyAll])"
proof
  assume sink: "log_result f LogReset = Returned ()"
  have effects: "new_effects f (snd (reset f)) =
      log_line f LogReset @ observer_effects f (current_state f) IDLE"
    by (simp add: reset_eq sink new_effects_def)
  have fields: "current_state (snd (reset f)) = IDLE" "previous_state (snd (reset f)) = current_state f"
    "fst (reset f) = observer_result f (current_state f) IDLE"
    by (simp_all add: reset_eq sink)
  show "current_state (snd (reset f)) = IDLE \<and>
     previous_state (snd (reset f)) = current_state f \<and>
     filter is_state_change_call (new_effects f (snd (reset f))) =
       (if state_change_callback f = None then [] else [StateChangeCall (current_state f) IDLE]) \<and>
     (observer_contained f (current_state f) IDLE \<longrightarrow>
        fst (reset f) = Returned () \<and>
        filter is_notify (new_effects f (snd (reset f))) = [NotifyAll])"
    unfolding effects fields
    by (simp add: filter_observer_effects observer_result_contained)
qed

text \<open>\<open>reset\<close> of a new engine, which is in \<open>IDLE\<close> already, with an observer that returns.\<close>

theorem C7_witness:
  "log_result engine_observed LogReset = Returned () \<and>
   state_change_callback engine_observed = Some observer_returning \<and>
   observer_contained engine_observed IDLE IDLE \<and>
   current_state engine_observed = IDLE \<and>
   fst (reset engine_observed) = Returned () \<and>
   current_state (snd (reset engine_observed)) = IDLE \<and>
   previous_state (snd (reset engine_observed)) = IDLE \<and>
   filter is_state_change_call (new_effects engine_observed (snd (reset engine_observed)))
     = [StateChangeCall IDLE IDLE] \<and>
   filter is_notify (new_effects engine_observed (snd (reset engine_observed))) = [NotifyAll]"
proof -
  have oc: "observer_contained engine_observed IDLE IDLE"
    by (simp add: observer_contained_def example_engines_callbacks observer_returning_def)
  show ?thesis
    using oc C7_reset_forces_idle_and_notifies [of engine_observed]
    by (simp add: example_engines_state example_engines_callbacks example_engines_sink)
qed

text \<open>
  Claim C7 as stated fails in two ways. With an observer that throws an object that is not a
  \<^verbatim>\<open>std::exception\<close>, \<open>reset\<close> is left before \<^verbatim>\<open>cv_.notify_all()\<close>, and no waiter is woken. With
  a sink that throws, \<open>reset\<close> is left before it writes \<open>current_state\<close>: the engine stays in
  \<open>MOVEIT_STARTING\<close>.
\<close>

theorem C7_counterexample:
  "state_change_callback engine_observer_other = Some observer_throwing_other \<and>
   fst (reset engine_observer_other) = Raised OtherException \<and>
   filter is_notify (new_effects engine_observer_other (snd (reset engine_observer_other))) = [] \<and>
   filter is_notify (new_effects engine_observer_other (snd (reset engine_observer_other)))
     \<noteq> [NotifyAll] \<and>
   current_state engine_starting_sink_throwing = MOVEIT_STARTING \<and>
   fst (reset engine_starting_sink_throwing) = Raised (StdException ''sink failed'') \<and>
   current_state (snd (reset engine_starting_sink_throwing)) = MOVEIT_STARTING \<and>
   current_state (snd (reset engine_starting_sink_throwing)) \<noteq> IDLE"
proof -
  have a: "state_change_callback engine_observer_other = Some observer_throwing_other"
    "current_state engine_starting_sink_throwing = MOVEIT_STARTING"
    by (simp_all add: example_engines_callbacks example_engines_state)
  have b: "fst (reset engine_observer_other) = Raised OtherException"
    "filter is_notify (new_effects engine_observer_other (snd (reset engine_observer_other))) = []"
    by (simp_all add: source_defs new_effects_def engine_observer_other_def
        setStateChangeCallback_def observer_throwing_other_def)
  have c: "fst (reset engine_starting_sink_throwing) = Raised (StdException ''sink failed'')"
    "current_state (snd (reset engine_starting_sink_throwing)) = MOVEIT_STARTING"
    by (simp_all add: reset_eq example_engines_sink example_engines_state)
  from a b c show ?thesis by simp
qed

subsection \<open>C8: the state stays in the enumeration and moves along the table\<close>

text \<open>
  Claim C8. In every engine reachable by a sequence of public operations, \<open>current_state\<close> is one
  of the six values of \<open>SystemState\<close>, and whenever \<open>triggerEvent\<close> (with or without data) changes
  \<open>current_state\<close>, the engine's table holds, for the state before and the event, exactly the new
  state, and so does the specification's table: there is no other edge.
\<close>

theorem C8_state_changes_follow_the_table:
  assumes "reachable f"
  shows "current_state f \<in> {IDLE, MOVEIT_STARTING, PLANNING, EXECUTING, OBSTACLE_DETECTED, ERROR} \<and>
         triggerEvent_data f event data = triggerEvent f event \<and>
         (current_state (snd (triggerEvent f event)) \<noteq> current_state f \<longrightarrow>
            table_find (transition_table f) (current_state f) event =
              Some (current_state (snd (triggerEvent f event))) \<and>
            map_of spec_table (current_state f, event) =
              Some (current_state (snd (triggerEvent f event))))"
proof -
  have six: "current_state f \<in> {IDLE, MOVEIT_STARTING, PLANNING, EXECUTING, OBSTACLE_DETECTED, ERROR}"
    by (cases "current_state f") simp_all
  have intact: "table_intact f"
    using assms by (rule reachable_table_intact)
  have "map_of spec_table (current_state f, event) = Some (current_state (snd (triggerEvent f event)))"
    if changed: "current_state (snd (triggerEvent f event)) \<noteq> current_state f"
  proof -
    consider (same) xs where "snd (triggerEvent f event) = f\<lparr>trace := xs\<rparr>"
      | (moved) target xs where "map_of spec_table (current_state f, event) = Some target"
          and "snd (triggerEvent f event) =
            f\<lparr>previous_state := current_state f, current_state := target, trace := xs\<rparr>"
      using triggerEvent_cases [OF intact, of event] by blast
    then show ?thesis
    proof cases
      case same
      with changed show ?thesis by simp
    next
      case moved
      then show ?thesis by simp
    qed
  qed
  with six show ?thesis
    by (simp add: triggerEvent_data_eq intact_find [OF intact])
qed

text \<open>After \<open>initialize\<close>, \<open>START_MOVEIT\<close> changes the state, along the row of the table.\<close>

theorem C8_witness:
  "reachable (run_ops [Initialize] Fsm_init) \<and>
   current_state (run_ops [Initialize] Fsm_init) = IDLE \<and>
   current_state (snd (triggerEvent (run_ops [Initialize] Fsm_init) START_MOVEIT)) = MOVEIT_STARTING \<and>
   current_state (snd (triggerEvent (run_ops [Initialize] Fsm_init) START_MOVEIT))
     \<noteq> current_state (run_ops [Initialize] Fsm_init) \<and>
   table_find (transition_table (run_ops [Initialize] Fsm_init)) IDLE START_MOVEIT = Some MOVEIT_STARTING \<and>
   map_of spec_table (IDLE, START_MOVEIT) = Some MOVEIT_STARTING"
proof -
  let ?f = "run_ops [Initialize] Fsm_init"
  have h: "reachable ?f" by (rule reachable_run_ops)
  have cur: "current_state ?f = IDLE" by (simp add: initialize_eq)
  have intact: "table_intact ?f" using h by (rule reachable_table_intact)
  have row: "map_of spec_table (current_state ?f, START_MOVEIT) = Some MOVEIT_STARTING"
    by (simp only: cur spec_table_hits)
  have gating: "event_callbacks ?f START_MOVEIT = None"
    by (simp add: initialize_eq Fsm_init_def)
  have moved: "current_state (snd (triggerEvent ?f START_MOVEIT)) = MOVEIT_STARTING"
    by (simp add: triggerEvent_hit [OF intact row] gating commit_def del: run_ops.simps)
  show ?thesis
    using h cur moved C8_state_changes_follow_the_table [OF h, of START_MOVEIT "[]"]
    by (simp del: run_ops.simps)
qed

subsection \<open>C9: stop in the idle state\<close>

text \<open>
  Claim C9, amended. The table has no row for \<open>STOP_REQUEST\<close> in \<open>IDLE\<close>. \<open>stop\<close> in \<open>IDLE\<close>
  leaves \<open>current_state\<close> and \<open>previous_state\<close> as they were, and the engine differs from the one
  before only by the line about the unsupported event handed to the log sink. If the sink
  returns, \<open>triggerEvent\<close> returns false, and \<open>stop\<close> drops that result and returns, as it does
  after any \<open>triggerEvent\<close> that returns.
\<close>

theorem C9_stop_in_idle_is_silent:
  assumes "table_intact f" and "current_state f = IDLE"
  shows "map_of spec_table (IDLE, STOP_REQUEST) = None \<and>
         current_state (snd (stop f)) = IDLE \<and>
         previous_state (snd (stop f)) = previous_state f \<and>
         snd (stop f) = snd (logMessage f (LogUnsupported IDLE STOP_REQUEST)) \<and>
         (log_result f (LogUnsupported IDLE STOP_REQUEST) = Returned () \<longrightarrow>
            fst (triggerEvent f STOP_REQUEST) = Returned False \<and>
            fst (stop f) = Returned ()) \<and>
         (fst (triggerEvent g STOP_REQUEST) = Returned b \<longrightarrow> fst (stop g) = Returned ())"
proof -
  have miss: "map_of spec_table (current_state f, STOP_REQUEST) = None"
    using assms(2) by (simp add: spec_table_hits)
  show ?thesis
    using assms(2)
    by (simp add: stop_eq triggerEvent_miss [OF assms(1) miss] spec_table_hits logMessage_eq)
qed

text \<open>
  \<open>stop\<close> on a new engine, and on the engine in \<open>MOVEIT_STARTING\<close>, where \<open>STOP_REQUEST\<close>
  succeeds: the caller gets the same value.
\<close>

theorem C9_witness:
  "table_intact Fsm_init \<and> current_state Fsm_init = IDLE \<and>
   log_result Fsm_init (LogUnsupported IDLE STOP_REQUEST) = Returned () \<and>
   fst (triggerEvent Fsm_init STOP_REQUEST) = Returned False \<and>
   fst (stop Fsm_init) = Returned () \<and>
   current_state (snd (stop Fsm_init)) = IDLE \<and>
   trace (snd (stop Fsm_init)) = [Log (LogUnsupported IDLE STOP_REQUEST)] \<and>
   fst (triggerEvent engine_starting STOP_REQUEST) = Returned True \<and>
   fst (stop engine_starting) = Returned ()"
proof -
  have h1: "table_intact Fsm_init" by (rule Fsm_init_intact)
  have h2: "current_state Fsm_init = IDLE" by (simp add: Fsm_init_def)
  have g2: "map_of spec_table (current_state engine_starting, STOP_REQUEST) = Some IDLE"
    by (simp add: example_engines_state spec_table_hits)
  have g0: "observer_result engine_starting MOVEIT_STARTING IDLE = Returned ()"
    by (simp add: observer_result_def example_engines_callbacks observer_returning_def)
  have g3: "fst (triggerEvent engine_starting STOP_REQUEST) = Returned True"
    by (simp add: triggerEvent_hit [OF example_engines_intact(7) g2] g0 commit_def
        example_engines_callbacks example_engines_state example_engines_sink)
  have t: "trace Fsm_init = []" by (simp add: Fsm_init_def)
  show ?thesis
    using h1 h2 g3 C9_stop_in_idle_is_silent [OF h1 h2, of engine_starting True]
    by (simp add: logMessage_eq t)
qed

text \<open>
  Claim C9 as stated fails: with a sink that throws, \<open>stop\<close> in \<open>IDLE\<close> does not return; the
  sink's exception leaves \<open>triggerEvent\<close> and \<open>stop\<close> and reaches the caller.
\<close>

theorem C9_counterexample:
  "table_intact engine_sink_throwing \<and>
   current_state engine_sink_throwing = IDLE \<and>
   fst (triggerEvent engine_sink_throwing STOP_REQUEST) \<noteq> Returned False \<and>
   fst (stop engine_sink_throwing) = Raised (StdException ''sink failed'') \<and>
   fst (stop engine_sink_throwing) \<noteq> Returned ()"
proof -
  have a: "table_intact engine_sink_throwing" "current_state engine_sink_throwing = IDLE"
    by (simp_all add: example_engines_intact example_engines_state)
  have b: "fst (triggerEvent engine_sink_throwing STOP_REQUEST) = Raised (StdException ''sink failed'')"
    "fst (stop engine_sink_throwing) = Raised (StdException ''sink failed'')"
    by (simp_all add: source_defs engine_sink_throwing_def setLogCallback_def sink_throwing_def)
  from a b show ?thesis by simp
qed

subsection \<open>C10: which operations notify\<close>

text \<open>
  Claim C10, amended. \<open>start\<close> and \<open>initialize\<close> add nothing to the trace but their log line: they
  neither invoke the state-change callback nor call \<^verbatim>\<open>cv_.notify_all()\<close>, also when they replace
  another state by \<open>IDLE\<close> (which \<open>initialize\<close> always does, and \<open>start\<close> when the sink returns).
  Every operation only adds to the trace, and an operation that invokes the state-change
  callback or notifies the waiters is \<open>reset\<close>, \<open>shutdown\<close>, or \<open>triggerEvent\<close> (directly or
  through \<open>stop\<close>); when \<open>triggerEvent\<close> does so, it has committed a transition of the table.
  These operations notify the waiters once when the log sink returns on their line and, for
  \<open>reset\<close> and a committed transition, the state-change callback returns or throws a
  \<^verbatim>\<open>std::exception\<close> whose log line the sink takes.
\<close>

theorem C10_start_and_initialize_are_silent:
  assumes "table_intact g"
  shows "new_effects f (snd (start f)) = log_line f LogStart \<and>
         new_effects f (snd (initialize f)) = log_line f LogInitialize \<and>
         (\<forall>x \<in> set (new_effects f (snd (start f))). \<not> is_notify x \<and> \<not> is_state_change_call x) \<and>
         (\<forall>x \<in> set (new_effects f (snd (initialize f))). \<not> is_notify x \<and> \<not> is_state_change_call x) \<and>
         (log_result f LogStart = Returned () \<longrightarrow> current_state (snd (start f)) = IDLE) \<and>
         current_state (snd (initialize f)) = IDLE \<and>
         trace (run_op op g) = trace g @ new_effects g (run_op op g) \<and>
         ((\<exists>x \<in> set (new_effects g (run_op op g)). is_notify x \<or> is_state_change_call x) \<longrightarrow>
            op = Reset \<or> op = Shutdown \<or> op = Stop \<or>
            (\<exists>event. op = TriggerEvent event) \<or> (\<exists>event data. op = TriggerEventData event data)) \<and>
         ((\<exists>x \<in> set (new_effects g (snd (triggerEvent g event))). is_notify x \<or> is_state_change_call x) \<longrightarrow>
            map_of spec_table (current_state g, event) = Some (current_state (snd (triggerEvent g event))) \<and>
            previous_state (snd (triggerEvent g event)) = current_state g) \<and>
         (log_result g LogShutdown = Returned () \<longrightarrow>
            filter is_notify (new_effects g (snd (shutdown g))) = [NotifyAll]) \<and>
         (log_result g LogReset = Returned () \<and> observer_contained g (current_state g) IDLE \<longrightarrow>
            filter is_notify (new_effects g (snd (reset g))) = [NotifyAll]) \<and>
         (map_of spec_table (current_state g, event) = Some target \<and>
          (event_callbacks g event = None \<or>
           (\<exists>cb. event_callbacks g event = Some cb \<and> call_event_callback cb event = Returned True)) \<and>
          log_result g (LogTransition (current_state g) target) = Returned () \<and>
          observer_contained g (current_state g) target \<longrightarrow>
            filter is_notify (new_effects g (snd (triggerEvent g event))) = [NotifyAll])"
proof -
  have a: "new_effects f (snd (start f)) = log_line f LogStart"
    and b: "new_effects f (snd (initialize f)) = log_line f LogInitialize"
    by (simp_all add: new_effects_def start_eq initialize_eq split: result.splits)
  have c: "log_result f LogStart = Returned () \<longrightarrow> current_state (snd (start f)) = IDLE"
    "current_state (snd (initialize f)) = IDLE"
    by (simp_all add: start_eq initialize_eq)
  have d: "\<forall>x \<in> set (log_line f m). \<not> is_notify x \<and> \<not> is_state_change_call x" for m
    by (simp add: log_line_plain)
  have e: "trace (run_op op g) = trace g @ new_effects g (run_op op g)"
    using assms by (rule run_op_extends)
  have q: "(\<exists>x \<in> set (new_effects g (run_op op g)). is_notify x \<or> is_state_change_call x) \<longrightarrow>
            op = Reset \<or> op = Shutdown \<or> op = Stop \<or>
            (\<exists>event. op = TriggerEvent event) \<or> (\<exists>event data. op = TriggerEventData event data)"
    using run_op_quiet [of g op] by blast
  have t: "(\<exists>x \<in> set (new_effects g (snd (triggerEvent g event))). is_notify x \<or> is_state_change_call x) \<longrightarrow>
            map_of spec_table (current_state g, event) = Some (current_state (snd (triggerEvent g event))) \<and>
            previous_state (snd (triggerEvent g event)) = current_state g"
    using triggerEvent_notifies_committed [OF assms, of event] by blast
  have s: "log_result g LogShutdown = Returned () \<longrightarrow>
            filter is_notify (new_effects g (snd (shutdown g))) = [NotifyAll]"
    by (simp add: shutdown_eq new_effects_def)
  have r: "log_result g LogReset = Returned () \<and> observer_contained g (current_state g) IDLE \<longrightarrow>
            filter is_notify (new_effects g (snd (reset g))) = [NotifyAll]"
    by (simp add: reset_eq new_effects_def filter_observer_effects observer_result_contained)
  have k: "map_of spec_table (current_state g, event) = Some target \<and>
          (event_callbacks g event = None \<or>
           (\<exists>cb. event_callbacks g event = Some cb \<and> call_event_callback cb event = Returned True)) \<and>
          log_result g (LogTransition (current_state g) target) = Returned () \<and>
          observer_contained g (current_state g) target \<longrightarrow>
            filter is_notify (new_effects g (snd (triggerEvent g event))) = [NotifyAll]"
  proof (intro impI, elim conjE)
    assume row: "map_of spec_table (current_state g, event) = Some target"
      and gating: "event_callbacks g event = None \<or>
           (\<exists>cb. event_callbacks g event = Some cb \<and> call_event_callback cb event = Returned True)"
      and sink: "log_result g (LogTransition (current_state g) target) = Returned ()"
      and oc: "observer_contained g (current_state g) target"
    show "filter is_notify (new_effects g (snd (triggerEvent g event))) = [NotifyAll]"
      unfolding triggerEvent_accepted [OF assms row gating] commit_fields
      using sink oc by (simp add: filter_observer_effects observer_result_contained)
  qed
  show ?thesis
    unfolding a b
    by (intro conjI)
       (rule refl, rule refl, rule d, rule d, rule c, rule c, rule e, rule q, rule t,
        rule s, rule r, rule k)
qed

text \<open>
  \<open>start\<close> and \<open>initialize\<close> on an engine in \<open>MOVEIT_STARTING\<close> that has an observer; \<open>shutdown\<close>,
  \<open>reset\<close> and a listed event on a new engine do notify.
\<close>

theorem C10_witness:
  "table_intact Fsm_init \<and>
   current_state engine_starting = MOVEIT_STARTING \<and>
   state_change_callback engine_starting = Some observer_returning \<and>
   log_result engine_starting LogStart = Returned () \<and>
   current_state (snd (start engine_starting)) = IDLE \<and>
   current_state (snd (initialize engine_starting)) = IDLE \<and>
   new_effects engine_starting (snd (start engine_starting)) = [Log LogStart] \<and>
   new_effects engine_starting (snd (initialize engine_starting)) = [Log LogInitialize] \<and>
   filter is_notify (new_effects engine_starting (snd (start engine_starting))) = [] \<and>
   filter is_state_change_call (new_effects engine_starting (snd (start engine_starting))) = [] \<and>
   (\<exists>x \<in> set (new_effects Fsm_init (run_op Reset Fsm_init)). is_notify x \<or> is_state_change_call x) \<and>
   (\<exists>x \<in> set (new_effects Fsm_init (snd (triggerEvent Fsm_init START_MOVEIT))).
      is_notify x \<or> is_state_change_call x) \<and>
   map_of spec_table (current_state Fsm_init, START_MOVEIT) =
     Some (current_state (snd (triggerEvent Fsm_init START_MOVEIT))) \<and>
   log_result Fsm_init LogShutdown = Returned () \<and>
   filter is_notify (new_effects Fsm_init (snd (shutdown Fsm_init))) = [NotifyAll] \<and>
   log_result Fsm_init LogReset = Returned () \<and>
   observer_contained Fsm_init (current_state Fsm_init) IDLE \<and>
   filter is_notify (new_effects Fsm_init (snd (reset Fsm_init))) = [NotifyAll] \<and>
   event_callbacks Fsm_init START_MOVEIT = None \<and>
   log_result Fsm_init (LogTransition (current_state Fsm_init) MOVEIT_STARTING) = Returned () \<and>
   observer_contained Fsm_init (current_state Fsm_init) MOVEIT_STARTING \<and>
   filter is_notify (new_effects Fsm_init (snd (triggerEvent Fsm_init START_MOVEIT))) = [NotifyAll]"
proof -
  have h: "table_intact Fsm_init" by (rule Fsm_init_intact)
  have oc: "observer_contained Fsm_init s t" for s t
    by (simp add: observer_contained_def example_engines_callbacks)
  have row: "map_of spec_table (current_state Fsm_init, START_MOVEIT) = Some MOVEIT_STARTING"
    by (simp add: Fsm_init_def spec_table_hits)
  have sh: "filter is_notify (new_effects Fsm_init (snd (shutdown Fsm_init))) = [NotifyAll]"
    by (simp add: source_defs new_effects_def)
  have r: "\<exists>x \<in> set (new_effects Fsm_init (run_op Reset Fsm_init)). is_notify x \<or> is_state_change_call x"
    by (simp add: source_defs new_effects_def)
  have t: "\<exists>x \<in> set (new_effects Fsm_init (snd (triggerEvent Fsm_init START_MOVEIT))).
      is_notify x \<or> is_state_change_call x"
    by (simp add: source_defs new_effects_def)
  show ?thesis
    using h oc row sh r t
      C10_start_and_initialize_are_silent
        [OF h, of engine_starting Reset START_MOVEIT MOVEIT_STARTING]
    by (simp add: example_engines_state example_engines_callbacks example_engines_sink)
qed

text \<open>
  Claim C10 as stated fails: it counts \<open>shutdown\<close> among the operations that produce
  notifications, but \<open>shutdown\<close> logs first, and with a sink that throws it is left before
  \<^verbatim>\<open>cv_.notify_all()\<close>: no waiter is woken.
\<close>

theorem C10_counterexample:
  "fst (shutdown engine_sink_throwing) = Raised (StdException ''sink failed'') \<and>
   new_effects engine_sink_throwing (snd (shutdown engine_sink_throwing)) = [Log LogShutdown] \<and>
   filter is_notify (new_effects engine_sink_throwing (snd (shutdown engine_sink_throwing))) = [] \<and>
   filter is_notify (new_effects engine_sink_throwing (snd (shutdown engine_sink_throwing)))
     \<noteq> [NotifyAll]"
  by (simp add: source_defs new_effects_def engine_sink_throwing_def setLogCallback_def
      sink_throwing_def)

end
